theory Spec2Isabelle
  imports Main "HOL-Library.Signed_Division"
begin

section \<open>Constants and enumerations of MOS_Phase_3.cpp\<close>

text \<open>
  All counters and addresses of the program are C++ \<open>int\<close>. Every value that occurs stays
  far inside the 32-bit range (addresses below 100, counters bounded by four-digit quotas
  and by \<open>MAX_TIMER\<close>), so they are modelled as unbounded \<open>int\<close>. Division and remainder
  are the truncating C++ operators, \<open>sdiv\<close> and \<open>smod\<close>.
\<close>

abbreviation (input) MEM_SIZE :: int where "MEM_SIZE \<equiv> 100"
abbreviation (input) PAGE_SIZE :: int where "PAGE_SIZE \<equiv> 10"
abbreviation (input) FRAME_COUNT :: int where "FRAME_COUNT \<equiv> 10"
abbreviation (input) WORD_SIZE :: nat where "WORD_SIZE \<equiv> 4"
abbreviation (input) MAX_TIMER :: int where "MAX_TIMER \<equiv> 1000000"

datatype EM_Code =
  EM_NO_ERR | EM_OUT_OF_DATA | EM_LINE_LIMIT | EM_TIME_LIMIT
| EM_OP_CODE_ERR | EM_OPERAND_ERR | EM_INVALID_PAGE

text \<open>
  \<open>enum SI_Type\<close> and \<open>enum PI_Type\<close>; the CPU fields that hold them are plain ints.
  The enumerator \<open>TERM\<close> is written \<open>SI_TERM\<close> (the name is taken in Isabelle's syntax).
\<close>

abbreviation (input) READ :: int where "READ \<equiv> 1"
abbreviation (input) WRITE :: int where "WRITE \<equiv> 2"
abbreviation (input) SI_TERM :: int where "SI_TERM \<equiv> 3"
abbreviation (input) PI_OP_ERR :: int where "PI_OP_ERR \<equiv> 1"
abbreviation (input) PI_OPERAND_ERR :: int where "PI_OPERAND_ERR \<equiv> 2"
abbreviation (input) PI_PAGE_FAULT :: int where "PI_PAGE_FAULT \<equiv> 3"

abbreviation (input) PRIORITY_TIMER :: int where "PRIORITY_TIMER \<equiv> 3"
abbreviation (input) PRIORITY_PAGE_FAULT :: int where "PRIORITY_PAGE_FAULT \<equiv> 2"
abbreviation (input) PRIORITY_PROGRAM :: int where "PRIORITY_PROGRAM \<equiv> 1"
abbreviation (input) PRIORITY_SYSCALL :: int where "PRIORITY_SYSCALL \<equiv> 0"

datatype ProcessState = READY | RUNNING | BLOCKED | TERMINATED

text \<open>The member functions bound into the interrupt vector table.\<close>

datatype Handler =
  HandleTimerInterrupt | HandleOpCodeError | HandleOperandError | HandlePageFault
| HandleRead | HandleWrite | HandleTerminate

text \<open>
  What the C++ program does where the language leaves the behaviour undefined or raises:
  a null \<open>currentPCB\<close> dereferenced, an array indexed outside its bounds, and the
  exceptions of the loader (\<open>runtime_error\<close>, and those of \<open>stoi\<close> and \<open>substr\<close>).
\<close>

datatype fault =
  NullPointer | OutOfBounds | RuntimeError string | InvalidArgument | OutOfRange

definition bnd :: "fault + 'a \<Rightarrow> ('a \<Rightarrow> fault + 'b) \<Rightarrow> fault + 'b" where
  "bnd x f = (case x of Inl e \<Rightarrow> Inl e | Inr v \<Rightarrow> f v)"

section \<open>Data model\<close>

record InterruptVectorEntry =
  etype :: int
  epriority :: int
  ehandler :: Handler

record CPUState =
  IR :: string
  IC :: int
  R :: string
  C :: bool
  SI :: int
  PI :: int
  TI :: int
  RA :: int

record PageTableEntry =
  frame :: int
  valid :: bool

text \<open>
  \<open>char data[MEM_SIZE][WORD_SIZE]\<close>, \<open>bool allocated[FRAME_COUNT]\<close> and the bitset of locks
  are arrays of fixed size, modelled as total functions on the index; every access in the
  model is at an index the code has range-checked, or is guarded here by \<open>OutOfBounds\<close>.
  A memory word is a string of \<open>WORD_SIZE\<close> characters.
\<close>

record Memory =
  data :: "int \<Rightarrow> string"
  allocated :: "int \<Rightarrow> bool"
  locked_frames :: "int \<Rightarrow> bool"

record ProcessContext =
  registers :: "int list"
  programCounter :: int
  stackPointer :: int
  statusRegister :: int
  state :: ProcessState

text \<open>
  The PCB without \<open>priority\<close> and \<open>interruptMask\<close>, which no function of the program reads
  or writes. The member \<open>context\<close> is the field \<open>ctx\<close> (\<open>context\<close> is a keyword here).
\<close>

record PCB =
  pid :: int
  TTL :: int
  TLL :: int
  TTC :: int
  LLC :: int
  pageTable :: "int \<Rightarrow> PageTableEntry"
  PTR :: int
  dataCards :: "string list"
  terminated :: bool
  ctx :: ProcessContext

text \<open>
  The output file as the sequence of things written to it: a data line by \<open>handleWrite\<close>,
  a termination block (pid, reason, TTC, LLC) by \<open>terminate\<close>.
\<close>

datatype Output = DataLine string | TerminationBlock int EM_Code int int

text \<open>
  The \<open>MOS\<close> object. PCBs are heap objects reached through \<open>currentPCB\<close> and the ready
  queue; every PCB is referenced from exactly one of the two at any time, so they are
  held by value. The input file is an argument of the loader; the hardware ISR buffers
  and the mutex are used by no path of the program and are left out.
\<close>

record MOS =
  mem :: Memory
  readyQueue :: "PCB list"
  currentPCB :: "PCB option"
  cpu :: CPUState
  outFile :: "Output list"
  globalTimer :: int
  systemRunning :: bool
  interruptsEnabled :: bool

abbreviation (input) NUL :: char where "NUL \<equiv> CHR 0x00"

definition nulWord :: string where
  "nulWord = replicate WORD_SIZE NUL"

text \<open>\<open>word.resize(WORD_SIZE, ' ')\<close>: cut to four characters or pad with spaces.\<close>

definition resizeWord :: "string \<Rightarrow> string" where
  "resizeWord w = take WORD_SIZE w @ replicate (WORD_SIZE - length w) (CHR '' '')"

text \<open>The switch of \<open>terminate\<close> that prints the reason.\<close>

fun reasonMessage :: "EM_Code \<Rightarrow> string" where
  "reasonMessage EM_NO_ERR = ''Normal termination''"
| "reasonMessage EM_OUT_OF_DATA = ''Out of data''"
| "reasonMessage EM_LINE_LIMIT = ''Line limit exceeded''"
| "reasonMessage EM_TIME_LIMIT = ''Time limit exceeded''"
| "reasonMessage EM_OP_CODE_ERR = ''Invalid operation code''"
| "reasonMessage EM_OPERAND_ERR = ''Invalid operand''"
| "reasonMessage EM_INVALID_PAGE = ''Invalid page access''"

section \<open>Memory\<close>

text \<open>\<open>fill_n(data[frame*PAGE_SIZE], PAGE_SIZE*WORD_SIZE, 0)\<close>: the ten words of the frame.\<close>

definition clearFrame :: "int \<Rightarrow> Memory \<Rightarrow> Memory" where
  "clearFrame f m =
     m\<lparr>data := (\<lambda>a. if f * PAGE_SIZE \<le> a \<and> a < f * PAGE_SIZE + PAGE_SIZE
                     then nulWord else data m a)\<rparr>"

definition lockFrame :: "int \<Rightarrow> Memory \<Rightarrow> Memory" where
  "lockFrame f m = m\<lparr>locked_frames := (locked_frames m)(f := True)\<rparr>"

definition unlockFrame :: "int \<Rightarrow> Memory \<Rightarrow> Memory" where
  "unlockFrame f m = m\<lparr>locked_frames := (locked_frames m)(f := False)\<rparr>"

section \<open>Context save and restore\<close>

definition saveContext :: "MOS \<Rightarrow> MOS" where
  "saveContext s =
     (case currentPCB s of
        None \<Rightarrow> s
      | Some p \<Rightarrow>
          s\<lparr>currentPCB := Some (p\<lparr>ctx :=
               \<lparr>registers = replicate 8 0, programCounter = IC (cpu s),
                stackPointer = 0, statusRegister = 0, state = BLOCKED\<rparr>\<rparr>)\<rparr>)"

definition restoreContext :: "MOS \<Rightarrow> MOS" where
  "restoreContext s =
     (case currentPCB s of
        None \<Rightarrow> s
      | Some p \<Rightarrow>
          s\<lparr>currentPCB := Some (p\<lparr>ctx := (ctx p)\<lparr>state := RUNNING\<rparr>\<rparr>),
            cpu := (cpu s)\<lparr>IC := (if programCounter (ctx p) = -1 then 0
                                   else programCounter (ctx p))\<rparr>\<rparr>)"

section \<open>Address translation\<close>

definition setPI :: "int \<Rightarrow> MOS \<Rightarrow> MOS" where
  "setPI v s = s\<lparr>cpu := (cpu s)\<lparr>PI := v\<rparr>\<rparr>"

definition setSI :: "int \<Rightarrow> MOS \<Rightarrow> MOS" where
  "setSI v s = s\<lparr>cpu := (cpu s)\<lparr>SI := v\<rparr>\<rparr>"

text \<open>
  \<open>bool addressMap(int VA, int& RA)\<close>. The reference parameter is passed in and returned:
  it is written only at step 6. The result is (ok, RA, state).
\<close>

definition addressMap :: "int \<Rightarrow> int \<Rightarrow> MOS \<Rightarrow> fault + (bool \<times> int \<times> MOS)" where
  "addressMap VA ra s =
     (if VA < 0 \<or> VA \<ge> MEM_SIZE then Inr (False, ra, setPI PI_OPERAND_ERR s)
      else
        let page = VA sdiv PAGE_SIZE; offset = VA smod PAGE_SIZE in
        if page \<ge> FRAME_COUNT then Inr (False, ra, setPI PI_PAGE_FAULT s)
        else
          (case currentPCB s of
             None \<Rightarrow> Inl NullPointer
           | Some p \<Rightarrow>
               if \<not> valid (pageTable p page) then Inr (False, ra, setPI PI_PAGE_FAULT s)
               else
                 let fr = frame (pageTable p page) in
                 if fr < 0 \<or> fr \<ge> FRAME_COUNT then Inr (False, ra, setPI PI_PAGE_FAULT s)
                 else
                   let ra' = fr * PAGE_SIZE + offset in
                   if ra' < 0 \<or> ra' \<ge> MEM_SIZE then Inr (False, ra', setPI PI_OPERAND_ERR s)
                   else Inr (True, ra', s)))"

section \<open>System-call handlers\<close>

text \<open>
  The loop of \<open>handleRead\<close> over the chunks of the data card: \<open>rest\<close> is what is left of
  the card from position \<open>i\<close> on, \<open>k\<close> is \<open>i / WORD_SIZE\<close>. The local \<open>RA\<close> of the handler
  is uninitialised in the source and read only after a successful mapping.
\<close>

function readChunks :: "string \<Rightarrow> int \<Rightarrow> MOS \<Rightarrow> fault + MOS" where
  "readChunks rest k s =
     (if rest = [] then Inr s
      else
        let word = resizeWord (take WORD_SIZE rest);
            targetVA = RA (cpu s) + k
        in case addressMap targetVA 0 s of
             Inl e \<Rightarrow> Inl e
           | Inr (ok, ra, s1) \<Rightarrow>
               if \<not> ok then Inr s1
               else readChunks (drop WORD_SIZE rest) (k + 1)
                      (s1\<lparr>mem := (mem s1)\<lparr>data := (data (mem s1))(ra := word)\<rparr>\<rparr>))"
  by pat_completeness auto
termination
  by (relation "measure (\<lambda>(rest, k, s). length rest)") auto

declare readChunks.simps [simp del]

definition handleRead :: "MOS \<Rightarrow> fault + MOS" where
  "handleRead s =
     (case currentPCB s of
        None \<Rightarrow> Inl NullPointer
      | Some p \<Rightarrow>
          if dataCards p = [] then Inr (setSI SI_TERM s)
          else
            let card = hd (dataCards p);
                s1 = s\<lparr>currentPCB := Some (p\<lparr>dataCards := tl (dataCards p)\<rparr>)\<rparr>
            in readChunks card 0 s1)"

definition handleWrite :: "MOS \<Rightarrow> fault + MOS" where
  "handleWrite s =
     (case currentPCB s of
        None \<Rightarrow> Inl NullPointer
      | Some p \<Rightarrow>
          let p1 = p\<lparr>LLC := LLC p + 1\<rparr>;
              s1 = s\<lparr>currentPCB := Some p1\<rparr>
          in if LLC p1 > TLL p1 then Inr (setSI SI_TERM s1)
             else
               (case addressMap (RA (cpu s1)) 0 s1 of
                  Inl e \<Rightarrow> Inl e
                | Inr (ok, ra, s2) \<Rightarrow>
                    if \<not> ok then Inr s2
                    else
                      let output = filter (\<lambda>c. c \<noteq> NUL) (data (mem s2) ra)
                      in Inr (s2\<lparr>outFile := outFile s2 @ [DataLine output]\<rparr>)))"

section \<open>Termination\<close>

definition releaseFrame :: "int \<Rightarrow> Memory \<Rightarrow> Memory" where
  "releaseFrame f m = unlockFrame f (clearFrame f (m\<lparr>allocated := (allocated m)(f := False)\<rparr>))"

text \<open>One round of the loop of \<open>terminate\<close> over the page table, at index \<open>i\<close>.\<close>

definition releaseEntry :: "int \<Rightarrow> PCB \<times> Memory \<Rightarrow> PCB \<times> Memory" where
  "releaseEntry i pm =
     (let p = fst pm; m = snd pm in
      if valid (pageTable p i) then
        let fr = frame (pageTable p i);
            m' = (if fr \<ge> 0 \<and> fr < FRAME_COUNT then releaseFrame fr m else m)
        in (p\<lparr>pageTable := (pageTable p)(i := (pageTable p i)\<lparr>valid := False\<rparr>)\<rparr>, m')
      else (p, m))"

text \<open>
  Step 2a of \<open>terminate\<close>: the page-table frame, then every valid entry. \<open>PTR / PAGE_SIZE\<close>
  indexes \<open>allocated\<close> unchecked.
\<close>

definition releaseMemory :: "PCB \<Rightarrow> Memory \<Rightarrow> fault + (PCB \<times> Memory)" where
  "releaseMemory p m =
     bnd (if PTR p \<noteq> -1 then
            let pageTableFrame = PTR p sdiv PAGE_SIZE in
            if pageTableFrame < 0 \<or> pageTableFrame \<ge> FRAME_COUNT then Inl OutOfBounds
            else Inr (releaseFrame pageTableFrame m)
          else Inr m)
       (\<lambda>m1. Inr (fold releaseEntry [0 .. FRAME_COUNT - 1] (p, m1)))"

text \<open>\<open>memset(&cpu, 0, sizeof(CPUState))\<close>.\<close>

definition zeroCPU :: CPUState where
  "zeroCPU = \<lparr>IR = nulWord, IC = 0, R = nulWord, C = False, SI = 0, PI = 0, TI = 0, RA = 0\<rparr>"

text \<open>
  \<open>terminate\<close>. The writes of steps 2c, 3 and 6 (\<open>dataCards\<close> cleared, \<open>terminated\<close>,
  state \<open>TERMINATED\<close>, \<open>PTR\<close>, the zeroed context) go to the PCB that step 6 deletes; the
  deleted PCB is in no later state, so the state after \<open>terminate\<close> does not hold it.
\<close>

definition terminate :: "EM_Code \<Rightarrow> MOS \<Rightarrow> fault + MOS" where
  "terminate code s =
     (case currentPCB s of
        None \<Rightarrow> Inr s
      | Some p \<Rightarrow>
          let s1 = s\<lparr>outFile := outFile s @ [TerminationBlock (pid p) code (TTC p) (LLC p)]\<rparr>
          in bnd (releaseMemory p (mem s1))
               (\<lambda>(p1, m1).
                  let s2 = s1\<lparr>mem := m1\<rparr>;
                      s3 = (if state (ctx p1) = RUNNING then s2\<lparr>cpu := zeroCPU\<rparr> else s2);
                      s4 = s3\<lparr>currentPCB := None\<rparr>;
                      s5 = (case readyQueue s4 of
                              q # qs \<Rightarrow>
                                s4\<lparr>currentPCB := Some (q\<lparr>ctx := (ctx q)\<lparr>state := RUNNING\<rparr>\<rparr>),
                                   readyQueue := qs,
                                   cpu := (cpu s4)\<lparr>IC := 0\<rparr>\<rparr>
                            | [] \<Rightarrow> s4\<lparr>systemRunning := False\<rparr>)
                  in Inr (s5\<lparr>cpu := (cpu s5)\<lparr>TI := 0, SI := 0, PI := 0\<rparr>\<rparr>)))"

section \<open>Interrupt vector and dispatch\<close>

text \<open>The table as \<open>initInterruptVectorTable\<close> fills it, in order.\<close>

definition interruptVectorTable :: "InterruptVectorEntry list" where
  "interruptVectorTable =
     [\<lparr>etype = 0, epriority = PRIORITY_TIMER, ehandler = HandleTimerInterrupt\<rparr>,
      \<lparr>etype = PI_OP_ERR, epriority = PRIORITY_PROGRAM, ehandler = HandleOpCodeError\<rparr>,
      \<lparr>etype = PI_OPERAND_ERR, epriority = PRIORITY_PROGRAM, ehandler = HandleOperandError\<rparr>,
      \<lparr>etype = PI_PAGE_FAULT, epriority = PRIORITY_PAGE_FAULT, ehandler = HandlePageFault\<rparr>,
      \<lparr>etype = READ, epriority = PRIORITY_SYSCALL, ehandler = HandleRead\<rparr>,
      \<lparr>etype = WRITE, epriority = PRIORITY_SYSCALL, ehandler = HandleWrite\<rparr>,
      \<lparr>etype = SI_TERM, epriority = PRIORITY_SYSCALL, ehandler = HandleTerminate\<rparr>]"

fun runHandler :: "Handler \<Rightarrow> MOS \<Rightarrow> fault + MOS" where
  "runHandler HandleTimerInterrupt s = terminate EM_TIME_LIMIT s"
| "runHandler HandleOpCodeError s = terminate EM_OP_CODE_ERR s"
| "runHandler HandleOperandError s = terminate EM_OPERAND_ERR s"
| "runHandler HandlePageFault s = terminate EM_INVALID_PAGE s"
| "runHandler HandleRead s = handleRead s"
| "runHandler HandleWrite s = handleWrite s"
| "runHandler HandleTerminate s = terminate EM_NO_ERR s"

text \<open>
  The two scanning loops of \<open>handleInterrupt\<close>: the pair is (\<open>highestPriority\<close>,
  \<open>highestPriorityEntry\<close>), and \<open>cause\<close> is \<open>cpu.PI\<close> or \<open>cpu.SI\<close>.
\<close>

definition scanEntry ::
  "int \<Rightarrow> InterruptVectorEntry \<Rightarrow> int \<times> InterruptVectorEntry option
     \<Rightarrow> int \<times> InterruptVectorEntry option" where
  "scanEntry cause entry best =
     (if etype entry = cause \<and> epriority entry > fst best
      then (epriority entry, Some entry) else best)"

definition selectEntry :: "CPUState \<Rightarrow> InterruptVectorEntry option" where
  "selectEntry c =
     (let b0 = (-1, None);
          b1 = (if TI c \<noteq> 0
                then (epriority (hd interruptVectorTable), Some (hd interruptVectorTable))
                else b0);
          b2 = (if PI c \<noteq> 0 then fold (scanEntry (PI c)) interruptVectorTable b1 else b1);
          b3 = (if SI c \<noteq> 0 then fold (scanEntry (SI c)) interruptVectorTable b2 else b2)
      in snd b3)"

text \<open>The clearing after the handler has returned, on the CPU as the handler left it.\<close>

definition clearCause :: "InterruptVectorEntry \<Rightarrow> CPUState \<Rightarrow> CPUState" where
  "clearCause entry c =
     (if etype entry = 0 then c\<lparr>TI := 0\<rparr>
      else if etype entry = PI c then c\<lparr>PI := 0\<rparr>
      else if etype entry = SI c then c\<lparr>SI := 0\<rparr>
      else c)"

definition handleInterrupt :: "MOS \<Rightarrow> fault + MOS" where
  "handleInterrupt s =
     (if \<not> interruptsEnabled s then Inr s
      else
        (case selectEntry (cpu s) of
           None \<Rightarrow> Inr s
         | Some entry \<Rightarrow>
             bnd (runHandler (ehandler entry) (saveContext s))
               (\<lambda>s1. Inr (restoreContext (s1\<lparr>cpu := clearCause entry (cpu s1)\<rparr>)))))"

section \<open>Instruction decoding and execution\<close>

text \<open>\<open>::isspace\<close> in the C locale, and the decimal digits.\<close>

definition isspace :: "char \<Rightarrow> bool" where
  "isspace c = (c \<in> set [CHR '' '', CHR 0x09, CHR 0x0A, CHR 0x0B, CHR 0x0C, CHR 0x0D])"

definition isdigit :: "char \<Rightarrow> bool" where
  "isdigit c = ((48::nat) \<le> of_char c \<and> of_char c \<le> (57::nat))"

definition digitsValue :: "string \<Rightarrow> int" where
  "digitsValue ds = foldl (\<lambda>v c. 10 * v + (int (of_char c) - 48)) 0 ds"

text \<open>
  \<open>std::stoi\<close>: leading white space, an optional sign, then the longest run of digits;
  \<open>invalid_argument\<close> when there is no digit, \<open>out_of_range\<close> outside 32 bits.
\<close>

definition stoi :: "string \<Rightarrow> fault + int" where
  "stoi str =
     (let s1 = dropWhile isspace str;
          neg = (s1 \<noteq> [] \<and> hd s1 = CHR ''-'');
          s2 = (if s1 \<noteq> [] \<and> (hd s1 = CHR ''-'' \<or> hd s1 = CHR ''+'') then tl s1 else s1);
          ds = takeWhile isdigit s2
      in if ds = [] then Inl InvalidArgument
         else
           let v = (if neg then - digitsValue ds else digitsValue ds)
           in if v < - 2147483648 \<or> v > 2147483647 then Inl OutOfRange else Inr v)"

text \<open>\<open>string::substr(pos, len)\<close>, which throws when \<open>pos\<close> is beyond the end.\<close>

definition substr :: "nat \<Rightarrow> nat \<Rightarrow> string \<Rightarrow> fault + string" where
  "substr pos len str = (if pos > length str then Inl OutOfRange else Inr (take len (drop pos str)))"

text \<open>The \<open>erase\<close> of trailing blanks and NULs at the head of \<open>executeInstruction\<close>.\<close>

definition trimTrailing :: "string \<Rightarrow> string" where
  "trimTrailing w = rev (dropWhile (\<lambda>c. c = CHR '' '' \<or> c = NUL) (rev w))"

definition executeArithmeticLogic :: "string \<Rightarrow> int \<Rightarrow> MOS \<Rightarrow> fault + MOS" where
  "executeArithmeticLogic opc target s =
     (case addressMap target 0 s of
        Inl e \<Rightarrow> Inl e
      | Inr (ok, realAddr, s1) \<Rightarrow>
          if \<not> ok then Inr s1
          else if opc = ''LR'' then Inr (s1\<lparr>cpu := (cpu s1)\<lparr>R := data (mem s1) realAddr\<rparr>\<rparr>)
          else if opc = ''SR'' then
            Inr (s1\<lparr>mem := (mem s1)\<lparr>data := (data (mem s1))(realAddr := R (cpu s1))\<rparr>\<rparr>)
          else if opc = ''CR'' then
            Inr (s1\<lparr>cpu := (cpu s1)\<lparr>C := (R (cpu s1) = data (mem s1) realAddr)\<rparr>\<rparr>)
          else if opc = ''BT'' \<and> C (cpu s1) then Inr (s1\<lparr>cpu := (cpu s1)\<lparr>IC := target\<rparr>\<rparr>)
          else Inr s1)"

text \<open>
  \<open>executeInstruction\<close>. In the \<open>GD\<close> branch the operand is parsed and then not used: the
  call that would map it into \<open>cpu.RA\<close> is commented out in the source, and
  \<open>handleTerminate\<close> follows \<open>handleRead\<close> unconditionally.
\<close>

definition executeInstruction :: "MOS \<Rightarrow> fault + MOS" where
  "executeInstruction s =
     (let instruction = trimTrailing (take WORD_SIZE (IR (cpu s))) in
      if length instruction < 3 then terminate EM_OP_CODE_ERR (setPI PI_OP_ERR s)
      else
        let opc = filter (\<lambda>c. \<not> isspace c) (take 2 instruction);
            operandStr = filter (\<lambda>c. \<not> isspace c) (drop 2 instruction)
        in
        if opc = ''GD'' then
          (case stoi operandStr of
             Inl e \<Rightarrow> Inr (setPI PI_OPERAND_ERR s)
           | Inr target \<Rightarrow> bnd (handleRead (setSI READ s)) (terminate EM_NO_ERR))
        else if opc = ''PD'' then
          (case stoi operandStr of
             Inl e \<Rightarrow> Inr (setPI PI_OPERAND_ERR s)
           | Inr target \<Rightarrow>
               (case addressMap target (RA (cpu s)) s of
                  Inl e \<Rightarrow> Inl e
                | Inr (ok, ra, s1) \<Rightarrow>
                    let s2 = s1\<lparr>cpu := (cpu s1)\<lparr>RA := ra\<rparr>\<rparr> in
                    if \<not> ok then Inr s2 else handleWrite (setSI WRITE s2)))
        else if opc = ''H'' then handleInterrupt (setSI SI_TERM s)
        else if opc = ''LR'' \<or> opc = ''SR'' \<or> opc = ''CR'' \<or> opc = ''BT'' then
          (case stoi operandStr of
             Inl e \<Rightarrow> Inr (setPI PI_OPERAND_ERR s)
           | Inr target \<Rightarrow> executeArithmeticLogic opc target s)
        else terminate EM_OP_CODE_ERR (setPI PI_OP_ERR s))"

section \<open>The executor\<close>

text \<open>
  The block "Context switch if time slice expired" of \<open>executeJob\<close>. It runs right after
  \<open>currentPCB\<close> has been dereferenced, so the pointer pushed is never null there; the
  model has no null entry for the queue and answers \<open>NullPointer\<close> in that case.
\<close>

definition contextSwitch :: "MOS \<Rightarrow> fault + MOS" where
  "contextSwitch s =
     (let s1 = saveContext s in
      case currentPCB s1 of
        None \<Rightarrow> Inl NullPointer
      | Some p \<Rightarrow>
          (case readyQueue s1 @ [p] of
             [] \<Rightarrow> Inl OutOfBounds
           | q # qs \<Rightarrow> Inr (restoreContext (s1\<lparr>currentPCB := Some q, readyQueue := qs\<rparr>))))"

definition timeSlice :: "MOS \<Rightarrow> fault + MOS" where
  "timeSlice s =
     (if globalTimer s smod 10 = 0 \<and> readyQueue s \<noteq> [] then contextSwitch s else Inr s)"

text \<open>
  One round of the \<open>while\<close> loop of \<open>executeJob\<close>, from the test of the loop condition
  on: \<open>Return\<close> when the function is left (the loop condition fails, or a \<open>return\<close>),
  \<open>Continue\<close> when the round goes on. The round is cut in three: the fetch (map \<open>IC\<close>,
  read the word, fill \<open>IR\<close>, advance \<open>IC\<close>), the execution (the instruction, the timers,
  the interrupts) and the time-slice block.
\<close>

datatype control = Return MOS | Continue MOS

definition fetch :: "MOS \<Rightarrow> fault + control" where
  "fetch s =
     (case addressMap (IC (cpu s)) 0 s of
        Inl e \<Rightarrow> Inl e
      | Inr (ok, realAddr, s1) \<Rightarrow>
          if \<not> ok then Inr (Return s1)
          else
            let instruction = filter (\<lambda>c. c \<noteq> NUL) (take WORD_SIZE (data (mem s1) realAddr))
            in
            if instruction = [] then Inr (Return s1)
            else Inr (Continue (s1\<lparr>cpu := (cpu s1)\<lparr>IR := resizeWord instruction,
                                                   IC := IC (cpu s1) + 1\<rparr>\<rparr>)))"

definition execute :: "MOS \<Rightarrow> fault + control" where
  "execute s2 =
     bnd (executeInstruction s2)
       (\<lambda>s3. case currentPCB s3 of
               None \<Rightarrow> Inl NullPointer
             | Some q \<Rightarrow>
                 let s4 = s3\<lparr>currentPCB := Some (q\<lparr>TTC := TTC q + 1\<rparr>),
                             globalTimer := globalTimer s3 + 1\<rparr>
                 in
                 if SI (cpu s4) \<noteq> 0 \<or> PI (cpu s4) \<noteq> 0 \<or> TI (cpu s4) \<noteq> 0
                 then bnd (handleInterrupt s4)
                        (\<lambda>s5. case currentPCB s5 of
                                None \<Rightarrow> Inr (Return s5)
                              | Some r \<Rightarrow>
                                  if terminated r then Inr (Return s5) else Inr (Continue s5))
                 else Inr (Continue s4))"

text \<open>The round up to the time-slice block: \<open>Continue\<close> is the state that reaches it.\<close>

definition cycleBody :: "MOS \<Rightarrow> fault + control" where
  "cycleBody s =
     (case currentPCB s of
        None \<Rightarrow> Inl NullPointer
      | Some p \<Rightarrow>
          if \<not> (\<not> terminated p \<and> TTC p < TTL p) then Inr (Return s)
          else if TTC p \<ge> TTL p then bnd (terminate EM_TIME_LIMIT s) (\<lambda>s'. Inr (Return s'))
          else
            bnd (fetch s)
              (\<lambda>c. case c of Return s1 \<Rightarrow> Inr (Return s1) | Continue s2 \<Rightarrow> execute s2))"

definition cycle :: "MOS \<Rightarrow> fault + control" where
  "cycle s =
     bnd (cycleBody s)
       (\<lambda>c. case c of
              Return s1 \<Rightarrow> Inr (Return s1)
            | Continue s5 \<Rightarrow> bnd (timeSlice s5) (\<lambda>s'. Inr (Continue s')))"

text \<open>
  The loop, with fuel: \<open>n\<close> is the number of rounds that may be followed by another
  round; \<open>None\<close> means the fuel ran out.
\<close>

fun executeJob_loop :: "nat \<Rightarrow> MOS \<Rightarrow> (fault + MOS) option" where
  "executeJob_loop 0 s =
     (case cycle s of
        Inl e \<Rightarrow> Some (Inl e)
      | Inr (Return s') \<Rightarrow> Some (Inr s')
      | Inr (Continue s') \<Rightarrow> None)"
| "executeJob_loop (Suc n) s =
     (case cycle s of
        Inl e \<Rightarrow> Some (Inl e)
      | Inr (Return s') \<Rightarrow> Some (Inr s')
      | Inr (Continue s') \<Rightarrow> executeJob_loop n s')"

definition executeJob :: "nat \<Rightarrow> MOS \<Rightarrow> (fault + MOS) option" where
  "executeJob n s =
     (case currentPCB s of
        None \<Rightarrow> Some (Inr s)
      | Some p \<Rightarrow>
          if terminated p then Some (Inr s)
          else executeJob_loop n (s\<lparr>currentPCB := Some (p\<lparr>ctx := (ctx p)\<lparr>state := RUNNING\<rparr>\<rparr>)\<rparr>))"

text \<open>
  The \<open>while\<close> loop of \<open>run\<close>: \<open>m\<close> is the fuel handed to every call of \<open>executeJob\<close>,
  \<open>n\<close> the number of rounds of this loop that may be followed by another one.
\<close>

definition runJob :: "nat \<Rightarrow> MOS \<Rightarrow> (fault + MOS) option" where
  "runJob m s = (case currentPCB s of None \<Rightarrow> Some (Inr s) | Some p \<Rightarrow> executeJob m s)"

text \<open>The first \<open>if\<close> of the loop body: \<open>Return\<close> is the \<open>break\<close>.\<close>

definition pickJob :: "MOS \<Rightarrow> control" where
  "pickJob s =
     (case currentPCB s of
        Some p \<Rightarrow> Continue s
      | None \<Rightarrow>
          (case readyQueue s of
             q # qs \<Rightarrow> Continue (restoreContext (s\<lparr>currentPCB := Some q, readyQueue := qs\<rparr>))
           | [] \<Rightarrow> Return (s\<lparr>systemRunning := False\<rparr>)))"

fun run_loop :: "nat \<Rightarrow> nat \<Rightarrow> MOS \<Rightarrow> (fault + MOS) option" where
  "run_loop m 0 s =
     (if systemRunning s \<and> globalTimer s < MAX_TIMER then
        (case pickJob s of
           Return s1 \<Rightarrow> Some (Inr s1)
         | Continue s1 \<Rightarrow>
             (case runJob m s1 of
                None \<Rightarrow> None
              | Some (Inl e) \<Rightarrow> Some (Inl e)
              | Some (Inr s2) \<Rightarrow> None))
      else Some (Inr s))"
| "run_loop m (Suc n) s =
     (if systemRunning s \<and> globalTimer s < MAX_TIMER then
        (case pickJob s of
           Return s1 \<Rightarrow> Some (Inr s1)
         | Continue s1 \<Rightarrow>
             (case runJob m s1 of
                None \<Rightarrow> None
              | Some (Inl e) \<Rightarrow> Some (Inl e)
              | Some (Inr s2) \<Rightarrow> run_loop m n s2))
      else Some (Inr s))"

section \<open>Frame allocation and the loader\<close>

text \<open>
  \<open>allocateFrame\<close> seeds a fresh generator from \<open>random_device\<close> at every call and draws
  from \<open>uniform_int_distribution(0, FRAME_COUNT - 1)\<close>. The draws of one call are a
  parameter: \<open>draws k mod 10\<close> is the frame drawn at attempt \<open>k\<close>, so every sequence of
  frames in \<open>0..9\<close> is covered and nothing else is.
\<close>

function allocateFrame_loop :: "(nat \<Rightarrow> nat) \<Rightarrow> nat \<Rightarrow> Memory \<Rightarrow> int \<times> Memory" where
  "allocateFrame_loop draws attempts m =
     (if attempts < 20 then
        let fr = int (draws attempts mod 10) in
        if \<not> allocated m fr then (fr, m\<lparr>allocated := (allocated m)(fr := True)\<rparr>)
        else allocateFrame_loop draws (attempts + 1) m
      else (-1, m))"
  by pat_completeness auto
termination
  by (relation "measure (\<lambda>(draws, attempts, m). 20 - attempts)") auto

declare allocateFrame_loop.simps [simp del]

definition allocateFrame :: "(nat \<Rightarrow> nat) \<Rightarrow> Memory \<Rightarrow> int \<times> Memory" where
  "allocateFrame draws m = allocateFrame_loop draws 0 m"

text \<open>\<open>getline\<close> over a string stream: the lines of the text, split at newlines.\<close>

function getlines :: "string \<Rightarrow> string list" where
  "getlines str =
     (if str = [] then []
      else takeWhile (\<lambda>c. c \<noteq> CHR 0x0A) str
             # getlines (drop 1 (dropWhile (\<lambda>c. c \<noteq> CHR 0x0A) str)))"
  by pat_completeness auto
termination
proof (relation "measure length")
  show "wf (measure length)" by simp
next
  fix str :: string
  assume ne: "str \<noteq> []"
  have le: "length (dropWhile (\<lambda>c. c \<noteq> CHR 0x0A) str) \<le> length str"
    by (rule length_dropWhile_le)
  from ne have pos: "0 < length str" by simp
  from le pos show "(drop 1 (dropWhile (\<lambda>c. c \<noteq> CHR 0x0A) str), str) \<in> measure length"
    unfolding in_measure length_drop by arith
qed

declare getlines.simps [simp del]

text \<open>The first loop of \<open>loadProgramIntoMemory\<close>: white space removed, empty lines dropped.\<close>

definition parseInstructions :: "string \<Rightarrow> string list" where
  "parseInstructions code =
     filter (\<lambda>i. i \<noteq> []) (map (filter (\<lambda>c. \<not> isspace c)) (getlines code))"

text \<open>The copy of instruction \<open>j\<close> into the frame \<open>fr\<close> of the page that starts at \<open>startInstr\<close>.\<close>

definition storeInstruction ::
  "string list \<Rightarrow> int \<Rightarrow> nat \<Rightarrow> nat \<Rightarrow> Memory \<Rightarrow> Memory" where
  "storeInstruction instructions fr startInstr j m =
     m\<lparr>data := (data m)(fr * PAGE_SIZE + int (j - startInstr) := resizeWord (instructions ! j))\<rparr>"

text \<open>
  The allocation loop of \<open>loadProgramIntoMemory\<close> from page \<open>i\<close> on. \<open>rng c\<close> is the draw
  sequence of the \<open>c\<close>-th call of \<open>allocateFrame\<close> since the program started, \<open>calls\<close> the
  number of calls made so far. The \<open>runtime_error\<close> is the left result.
\<close>

function loadPages ::
  "(nat \<Rightarrow> nat \<Rightarrow> nat) \<Rightarrow> string list \<Rightarrow> nat \<Rightarrow> nat \<Rightarrow> nat \<times> PCB \<times> Memory
     \<Rightarrow> fault + (nat \<times> PCB \<times> Memory)" where
  "loadPages rng instructions pagesNeeded i st =
     (let calls = fst st; pcb = fst (snd st); m = snd (snd st) in
      if i < pagesNeeded \<and> i < 10 then
        let r = allocateFrame (rng calls) m; fr = fst r; m1 = snd r in
        if fr = -1 then Inl (RuntimeError ''Memory allocation failed for program'')
        else
          let pcb1 = pcb\<lparr>pageTable := (pageTable pcb)(int i := \<lparr>frame = fr, valid = True\<rparr>)\<rparr>;
              m2 = clearFrame fr m1;
              instructionsPerPage = 2;
              startInstr = i * instructionsPerPage;
              endInstr = min (startInstr + instructionsPerPage) (length instructions);
              m3 = fold (storeInstruction instructions fr startInstr) [startInstr ..< endInstr] m2
          in loadPages rng instructions pagesNeeded (i + 1) (calls + 1, pcb1, m3)
      else Inr st)"
  by pat_completeness auto
termination
  by (relation "measure (\<lambda>(rng, instructions, pagesNeeded, i, st). 10 - i)") auto

declare loadPages.simps [simp del]

definition invalidPageTable :: "int \<Rightarrow> PageTableEntry" where
  "invalidPageTable = (\<lambda>i. \<lparr>frame = -1, valid = False\<rparr>)"

text \<open>\<open>loadProgramIntoMemory\<close> once the instructions are split out of the text.\<close>

definition loadInstructions ::
  "(nat \<Rightarrow> nat \<Rightarrow> nat) \<Rightarrow> nat \<Rightarrow> PCB \<Rightarrow> string list \<Rightarrow> Memory
     \<Rightarrow> fault + (nat \<times> PCB \<times> Memory)" where
  "loadInstructions rng calls pcb instructions m =
     (let instructionsPerPage = 2;
          pagesNeeded = (length instructions + instructionsPerPage - 1) div instructionsPerPage
      in loadPages rng instructions pagesNeeded 0
           (calls, pcb\<lparr>pageTable := invalidPageTable\<rparr>, m))"

definition loadProgramIntoMemory ::
  "(nat \<Rightarrow> nat \<Rightarrow> nat) \<Rightarrow> nat \<Rightarrow> PCB \<Rightarrow> string \<Rightarrow> Memory
     \<Rightarrow> fault + (nat \<times> PCB \<times> Memory)" where
  "loadProgramIntoMemory rng calls pcb code m =
     loadInstructions rng calls pcb (parseInstructions code) m"

text \<open>\<open>new PCB()\<close>: the members are zero but for their default initialisers.\<close>

definition newPCB :: PCB where
  "newPCB =
     \<lparr>pid = 0, TTL = 0, TLL = 0, TTC = 0, LLC = 0,
      pageTable = (\<lambda>i. \<lparr>frame = 0, valid = False\<rparr>), PTR = 0, dataCards = [],
      terminated = False,
      ctx = \<lparr>registers = replicate 8 0, programCounter = 0, stackPointer = 0,
             statusRegister = 0, state = READY\<rparr>\<rparr>"

text \<open>The locals of \<open>loadJobs\<close>, the count of \<open>allocateFrame\<close> calls, and the system.\<close>

record Loader =
  lpcb :: "PCB option"
  readingData :: bool
  programCode :: string
  allocCalls :: nat
  sys :: MOS

text \<open>The body of the \<open>while (getline(inFile, line))\<close> loop of \<open>loadJobs\<close>.\<close>

definition loadLine :: "(nat \<Rightarrow> nat \<Rightarrow> nat) \<Rightarrow> string \<Rightarrow> Loader \<Rightarrow> fault + Loader" where
  "loadLine rng line l =
     (if take 4 line = ''$AMJ'' then
        bnd (substr 4 4 line) (\<lambda>f1. bnd (stoi f1) (\<lambda>pidv.
        bnd (substr 8 4 line) (\<lambda>f2. bnd (stoi f2) (\<lambda>ttl.
        bnd (substr 12 4 line) (\<lambda>f3. bnd (stoi f3) (\<lambda>tll.
          let pcb = newPCB\<lparr>pid := pidv, TTL := ttl, TLL := tll,
                           ctx := (ctx newPCB)\<lparr>state := READY, programCounter := -1\<rparr>,
                           pageTable := invalidPageTable\<rparr>;
              r = allocateFrame (rng (allocCalls l)) (mem (sys l));
              fr = fst r
          in if fr = -1 then Inl (RuntimeError ''Memory allocation failed for page table'')
             else Inr (l\<lparr>lpcb := Some (pcb\<lparr>PTR := fr * PAGE_SIZE\<rparr>),
                         programCode := [],
                         allocCalls := allocCalls l + 1,
                         sys := (sys l)\<lparr>mem := snd r\<rparr>\<rparr>)))))))
      else if take 4 line = ''$DTA'' then
        (let l1 = l\<lparr>readingData := True\<rparr> in
         case lpcb l1 of
           None \<Rightarrow> Inr l1
         | Some pcb \<Rightarrow>
             if programCode l1 = [] then Inr l1
             else
               bnd (loadProgramIntoMemory rng (allocCalls l1) pcb (programCode l1) (mem (sys l1)))
                 (\<lambda>res. Inr (l1\<lparr>lpcb := Some (fst (snd res)),
                                allocCalls := fst res,
                                sys := (sys l1)\<lparr>mem := snd (snd res)\<rparr>\<rparr>)))
      else if take 4 line = ''$END'' then
        Inr (l\<lparr>readingData := False,
               sys := (case lpcb l of
                         None \<Rightarrow> sys l
                       | Some pcb \<Rightarrow> (sys l)\<lparr>readyQueue := readyQueue (sys l) @ [pcb]\<rparr>),
               lpcb := None\<rparr>)
      else if readingData l \<and> lpcb l \<noteq> None then
        Inr (l\<lparr>lpcb := map_option (\<lambda>pcb. pcb\<lparr>dataCards := dataCards pcb @ [line]\<rparr>) (lpcb l)\<rparr>)
      else if lpcb l \<noteq> None then
        Inr (l\<lparr>programCode := programCode l @ line @ [CHR 0x0A]\<rparr>)
      else Inr l)"

fun loadLines :: "(nat \<Rightarrow> nat \<Rightarrow> nat) \<Rightarrow> string list \<Rightarrow> Loader \<Rightarrow> fault + Loader" where
  "loadLines rng [] l = Inr l"
| "loadLines rng (line # rest) l = bnd (loadLine rng line l) (loadLines rng rest)"

text \<open>
  The \<open>MOS\<close> object after its constructor. The memory words and \<open>IR\<close> are not initialised
  by the source; they are taken as NUL here. The loader clears every program frame before
  it is read.
\<close>

definition initialMOS :: MOS where
  "initialMOS =
     \<lparr>mem = \<lparr>data = (\<lambda>a. nulWord), allocated = (\<lambda>f. False), locked_frames = (\<lambda>f. False)\<rparr>,
      readyQueue = [], currentPCB = None, cpu = zeroCPU, outFile = [],
      globalTimer = 0, systemRunning = True, interruptsEnabled = True\<rparr>"

definition loadJobs :: "(nat \<Rightarrow> nat \<Rightarrow> nat) \<Rightarrow> string list \<Rightarrow> MOS \<Rightarrow> fault + MOS" where
  "loadJobs rng inFile s =
     bnd (loadLines rng inFile
            \<lparr>lpcb = None, readingData = False, programCode = [], allocCalls = 0, sys = s\<rparr>)
       (\<lambda>l. Inr (sys l))"

text \<open>\<open>run\<close>: load the batch, then loop.\<close>

definition run :: "nat \<Rightarrow> nat \<Rightarrow> (nat \<Rightarrow> nat \<Rightarrow> nat) \<Rightarrow> string list \<Rightarrow> (fault + MOS) option" where
  "run m n rng inFile =
     (case loadJobs rng inFile initialMOS of
        Inl e \<Rightarrow> Some (Inl e)
      | Inr s \<Rightarrow> run_loop m n s)"

section \<open>Observations used by the theorems\<close>

text \<open>The state in which \<open>run\<close> enters \<open>executeJob\<close> for the first time.\<close>

definition startOf :: "(nat \<Rightarrow> nat \<Rightarrow> nat) \<Rightarrow> string list \<Rightarrow> fault + MOS" where
  "startOf rng inFile =
     bnd (loadJobs rng inFile initialMOS)
       (\<lambda>s. Inr (case pickJob s of Return s1 \<Rightarrow> s1 | Continue s1 \<Rightarrow> s1))"

text \<open>
  A frame is released: not flagged allocated, not locked, and its ten words NUL.
\<close>

definition frameReleased :: "Memory \<Rightarrow> int \<Rightarrow> bool" where
  "frameReleased m f =
     (\<not> allocated m f \<and> \<not> locked_frames m f
      \<and> list_all (\<lambda>a. data m a = nulWord) [f * PAGE_SIZE .. f * PAGE_SIZE + 9])"

text \<open>
  The round that starts in \<open>s\<close> ends with the context switch of the time-slice block.
\<close>

definition preempts :: "MOS \<Rightarrow> bool" where
  "preempts s =
     (case cycleBody s of
        Inr (Continue s5) \<Rightarrow> globalTimer s5 smod 10 = 0 \<and> readyQueue s5 \<noteq> []
      | _ \<Rightarrow> False)"

text \<open>\<open>k\<close> rounds of the loop in a row, each going on to the next.\<close>

fun cycles :: "nat \<Rightarrow> MOS \<Rightarrow> MOS option" where
  "cycles 0 s = Some s"
| "cycles (Suc k) s = (case cycle s of Inr (Continue s') \<Rightarrow> cycles k s' | _ \<Rightarrow> None)"

text \<open>None of the first \<open>k\<close> rounds from \<open>s\<close> ends with a context switch.\<close>

fun quiet :: "nat \<Rightarrow> MOS \<Rightarrow> bool" where
  "quiet 0 s = True"
| "quiet (Suc k) s =
     (\<not> preempts s \<and> (case cycle s of Inr (Continue s') \<Rightarrow> quiet k s' | _ \<Rightarrow> True))"

text \<open>The first call of \<open>executeJob\<close> by \<open>run\<close>, with fuel \<open>m\<close>.\<close>

definition firstJob :: "nat \<Rightarrow> (nat \<Rightarrow> nat \<Rightarrow> nat) \<Rightarrow> string list \<Rightarrow> (fault + MOS) option" where
  "firstJob m rng inFile =
     (case startOf rng inFile of Inl e \<Rightarrow> Some (Inl e) | Inr s \<Rightarrow> executeJob m s)"

text \<open>The first fetch of that call, and a step applied to the state the fetch leaves.\<close>

definition firstFetch :: "(nat \<Rightarrow> nat \<Rightarrow> nat) \<Rightarrow> string list \<Rightarrow> fault + control" where
  "firstFetch rng inFile = bnd (startOf rng inFile) fetch"

definition afterFetch :: "(MOS \<Rightarrow> fault + MOS) \<Rightarrow> fault + control \<Rightarrow> fault + MOS" where
  "afterFetch f r = bnd r (\<lambda>c. case c of Return s1 \<Rightarrow> Inr s1 | Continue s2 \<Rightarrow> f s2)"

text \<open>A loaded system before its first job is picked.\<close>

definition readyToRun :: "MOS \<Rightarrow> bool" where
  "readyToRun s =
     (systemRunning s \<and> globalTimer s < MAX_TIMER
      \<and> (case currentPCB s of None \<Rightarrow> readyQueue s \<noteq> [] | Some p \<Rightarrow> False))"

text \<open>The current job has used up its time limit and is not terminated.\<close>

definition timeUp :: "MOS \<Rightarrow> bool" where
  "timeUp s =
     (systemRunning s \<and> globalTimer s < MAX_TIMER
      \<and> (case currentPCB s of
            Some p \<Rightarrow> \<not> terminated p \<and> TTL p \<le> TTC p
          | None \<Rightarrow> False))"

text \<open>The current job is at \<open>IC = 0\<close> and its page 0 is not mapped.\<close>

definition noProgram :: "MOS \<Rightarrow> bool" where
  "noProgram s =
     (systemRunning s \<and> globalTimer s < MAX_TIMER \<and> IC (cpu s) = 0
      \<and> (case currentPCB s of
            Some p \<Rightarrow> \<not> terminated p \<and> \<not> valid (pageTable p 0)
          | None \<Rightarrow> False))"

text \<open>
  From \<open>s\<close> to \<open>s'\<close> the global tick counter has not moved and the ready queue has not
  grown.
\<close>

definition steady :: "MOS \<Rightarrow> MOS \<Rightarrow> bool" where
  "steady s s' =
     (globalTimer s' = globalTimer s \<and> length (readyQueue s') \<le> length (readyQueue s))"

text \<open>
  What is seen of a state around a context switch: the global tick counter; the pid,
  \<open>TTC\<close> and \<open>TTL\<close> of the current job; \<open>IC\<close>, \<open>R\<close> and \<open>C\<close> of the CPU; and for every job
  of the ready queue its pid, its \<open>TTC\<close> and its saved context (registers, program
  counter, state).
\<close>

definition switchView ::
  "MOS \<Rightarrow> int \<times> (int \<times> int \<times> int) option \<times> int \<times> string \<times> bool
           \<times> (int \<times> int \<times> int list \<times> int \<times> ProcessState) list" where
  "switchView s =
     (globalTimer s, map_option (\<lambda>p. (pid p, TTC p, TTL p)) (currentPCB s),
      IC (cpu s), R (cpu s), C (cpu s),
      map (\<lambda>p. (pid p, TTC p, registers (ctx p), programCounter (ctx p), state (ctx p)))
        (readyQueue s))"


section \<open>Sample batches and states\<close>

text \<open>Two random sources: the \<open>c\<close>-th call always draws frame \<open>c\<close>; every call draws frame 0.\<close>

definition seqRng :: "nat \<Rightarrow> nat \<Rightarrow> nat" where
  "seqRng c k = c"

definition zeroRng :: "nat \<Rightarrow> nat \<Rightarrow> nat" where
  "zeroRng c k = 0"

definition echoBatch :: "string list" where
  "echoBatch = [''$AMJ000100100010'', ''GD10'', ''PD10'', ''H'', ''$DTA'', ''HELLO'', ''$END'']"

definition lineLimitBatch :: "string list" where
  "lineLimitBatch = [''$AMJ000200500000'', ''PD00'', ''H'', ''$DTA'', ''ABCD'', ''$END'']"

definition timeLimitBatch :: "string list" where
  "timeLimitBatch = [''$AMJ000300010010'', ''LR00'', ''LR00'', ''$DTA'', ''$END'']"

definition emptyBatch :: "string list" where
  "emptyBatch = [''$AMJ000100100010'', ''$DTA'', ''$END'']"

text \<open>Two jobs that loop: \<open>CR02\<close> compares the NUL register with a NUL word, \<open>BT00\<close> jumps.\<close>

definition loopBatch :: "string list" where
  "loopBatch =
     [''$AMJ000100500010'', ''CR02'', ''BT00'', ''$DTA'', ''$END'',
      ''$AMJ000200500010'', ''CR02'', ''BT00'', ''$DTA'', ''$END'']"

text \<open>A job built by hand: page 0 in frame 1, page 9 in frame 3, page table in frame 0.\<close>

definition samplePCB :: PCB where
  "samplePCB =
     newPCB\<lparr>pid := 1, TTL := 10, TLL := 10, PTR := 0,
            pageTable := invalidPageTable(0 := \<lparr>frame = 1, valid = True\<rparr>,
                                          9 := \<lparr>frame = 3, valid = True\<rparr>),
            ctx := (ctx newPCB)\<lparr>programCounter := -1\<rparr>\<rparr>"

definition sampleMOS :: MOS where
  "sampleMOS =
     initialMOS\<lparr>currentPCB := Some samplePCB,
                mem := (mem initialMOS)\<lparr>allocated := (\<lambda>f. f = 0 \<or> f = 1 \<or> f = 3),
                                        locked_frames := (\<lambda>f. f = 0)\<rparr>\<rparr>"

text \<open>One job whose only instruction is \<open>PD00\<close>, with a line limit of 10.\<close>

definition pdBatch :: "string list" where
  "pdBatch = [''$AMJ000100100010'', ''PD00'', ''$DTA'', ''$END'']"

text \<open>One job whose data section starts with a line \<open>$DTA\<close>.\<close>

definition reloadBatch :: "string list" where
  "reloadBatch = [''$AMJ000100100010'', ''PD00'', ''$DTA'', ''$DTA'', ''$END'']"

text \<open>
  Two jobs that loop. The first (\<open>TTL = 10\<close>) sets \<open>C\<close> with \<open>CR02\<close>, jumps to its second
  page and repeats \<open>LR01\<close>, \<open>BT10\<close> there, which loads the word \<open>BT10\<close> into \<open>R\<close>. The
  second repeats \<open>LR00\<close>, \<open>BT00\<close> for as long as \<open>C\<close> is set.
\<close>

definition switchBatch :: "string list" where
  "switchBatch =
     [''$AMJ000100100010'', ''CR02'', ''BT10'', ''LR01'', ''BT10'', ''$DTA'', ''$END'',
      ''$AMJ000200500010'', ''LR00'', ''BT00'', ''$DTA'', ''$END'']"


section \<open>Auxiliary facts\<close>

lemma sdiv_nonneg: "0 \<le> a \<Longrightarrow> a sdiv 10 = a div (10::int)"
  by (simp add: signed_divide_int_def sgn_if)

lemma smod_nonneg: "0 \<le> a \<Longrightarrow> a smod 10 = a mod (10::int)"
  by (simp add: signed_modulo_int_def sgn_if)

section \<open>Address translation (C3)\<close>

text \<open>
  Claim C3. For every virtual address and every page table of the current job, the mapper
  decides in this order: an address outside \<open>[0, 100)\<close> sets \<open>PI = OPERAND_ERR\<close> and
  fails; otherwise, with page \<open>VA div 10\<close> and offset \<open>VA mod 10\<close>, a page \<open>\<ge> 10\<close>, an
  invalid entry or a stored frame outside \<open>[0, 10)\<close> sets \<open>PI = PAGE_FAULT\<close> and fails; a
  real address \<open>frame * 10 + offset\<close> outside \<open>[0, 100)\<close> sets \<open>PI = OPERAND_ERR\<close> and
  fails; otherwise the real address is returned, the call succeeds and the state (so
  \<open>PI\<close>) is unchanged. Address 99 with a valid page succeeds; address 100 is an operand
  error.
\<close>

theorem addressMap_decisions:
  assumes "currentPCB s = Some p"
  shows "addressMap VA ra s =
     Inr (let page = VA div 10; offset = VA mod 10;
              fr = frame (pageTable p page); ra' = fr * 10 + offset in
          if VA < 0 \<or> VA \<ge> 100 then (False, ra, s\<lparr>cpu := (cpu s)\<lparr>PI := PI_OPERAND_ERR\<rparr>\<rparr>)
          else if page \<ge> 10 \<or> \<not> valid (pageTable p page) \<or> fr < 0 \<or> fr \<ge> 10
            then (False, ra, s\<lparr>cpu := (cpu s)\<lparr>PI := PI_PAGE_FAULT\<rparr>\<rparr>)
          else if ra' < 0 \<or> ra' \<ge> 100
            then (False, ra', s\<lparr>cpu := (cpu s)\<lparr>PI := PI_OPERAND_ERR\<rparr>\<rparr>)
          else (True, ra', s))
     \<and> (valid (pageTable p 9) \<and> 0 \<le> frame (pageTable p 9) \<and> frame (pageTable p 9) < 10 \<longrightarrow>
           addressMap 99 ra s = Inr (True, frame (pageTable p 9) * 10 + 9, s))
     \<and> addressMap 100 ra s = Inr (False, ra, s\<lparr>cpu := (cpu s)\<lparr>PI := PI_OPERAND_ERR\<rparr>\<rparr>)"
  using assms
  by (auto simp add: addressMap_def setPI_def Let_def sdiv_nonneg smod_nonneg)

theorem addressMap_decisions_witness:
  "currentPCB sampleMOS = Some samplePCB
   \<and> addressMap 99 0 sampleMOS = Inr (True, 39, sampleMOS)
   \<and> addressMap 100 0 sampleMOS = Inr (False, 0, sampleMOS\<lparr>cpu := (cpu sampleMOS)\<lparr>PI := 2\<rparr>\<rparr>)"
proof -
  have h: "currentPCB sampleMOS = Some samplePCB"
    by (simp add: sampleMOS_def)
  have v: "valid (pageTable samplePCB 9) \<and> 0 \<le> frame (pageTable samplePCB 9)
           \<and> frame (pageTable samplePCB 9) < 10"
    by (simp add: samplePCB_def)
  have f: "frame (pageTable samplePCB 9) = 3"
    by (simp add: samplePCB_def)
  from addressMap_decisions [OF h, of 0 0] v f h show ?thesis
    by simp
qed

section \<open>The run loop: fuel and states it never leaves\<close>

lemma run_loop_unfold:
  "run_loop m n s =
     (if systemRunning s \<and> globalTimer s < MAX_TIMER then
        (case pickJob s of
           Return s1 \<Rightarrow> Some (Inr s1)
         | Continue s1 \<Rightarrow>
             (case runJob m s1 of
                None \<Rightarrow> None
              | Some (Inl e) \<Rightarrow> Some (Inl e)
              | Some (Inr s2) \<Rightarrow> (case n of 0 \<Rightarrow> None | Suc k \<Rightarrow> run_loop m k s2)))
      else Some (Inr s))"
  by (cases n) (simp_all split: control.splits option.splits sum.splits)

lemma run_loop_never_halts:
  assumes step: "\<And>s. Inv s \<Longrightarrow> systemRunning s \<and> globalTimer s < MAX_TIMER \<and> currentPCB s \<noteq> None
                    \<and> (\<exists>s'. executeJob m s = Some (Inr s') \<and> Inv s')"
    and inv: "Inv s"
  shows "run_loop m n s = None"
  using inv
proof (induction n arbitrary: s)
  case 0
  from step [OF 0] obtain p s' where "systemRunning s" "globalTimer s < MAX_TIMER"
    "currentPCB s = Some p" "executeJob m s = Some (Inr s')" by auto
  then show ?case by (simp add: pickJob_def runJob_def)
next
  case (Suc n)
  from step [OF Suc.prems] obtain p s' where "systemRunning s" "globalTimer s < MAX_TIMER"
    "currentPCB s = Some p" "executeJob m s = Some (Inr s')" "Inv s'" by auto
  with Suc.IH [of s'] show ?case by (simp add: pickJob_def runJob_def)
qed

lemma executeJob_timeUp:
  assumes "currentPCB s = Some p" "\<not> terminated p" "TTL p \<le> TTC p"
  shows "executeJob m s = Some (Inr (s\<lparr>currentPCB := Some (p\<lparr>ctx := (ctx p)\<lparr>state := RUNNING\<rparr>\<rparr>)\<rparr>))"
  using assms by (cases m) (simp_all add: executeJob_def cycle_def cycleBody_def bnd_def)

lemma timeUp_never_halts:
  assumes "timeUp s"
  shows "run_loop m n s = None"
proof (rule run_loop_never_halts [where Inv = timeUp])
  fix t assume "timeUp t"
  then obtain p where p: "systemRunning t" "globalTimer t < MAX_TIMER" "currentPCB t = Some p"
     "\<not> terminated p" "TTL p \<le> TTC p"
    by (auto simp add: timeUp_def split: option.splits)
  from executeJob_timeUp [OF p(3-5), of m] p
  show "systemRunning t \<and> globalTimer t < MAX_TIMER \<and> currentPCB t \<noteq> None
          \<and> (\<exists>s'. executeJob m t = Some (Inr s') \<and> timeUp s')"
    by (simp add: timeUp_def)
qed (rule assms)

lemma executeJob_loop_mono:
  "executeJob_loop m s = Some r \<Longrightarrow> executeJob_loop (m + k) s = Some r"
proof (induction m arbitrary: s)
  case 0
  then show ?case
    by (cases k) (auto split: sum.splits control.splits)
next
  case (Suc m)
  then show ?case
    by (auto split: sum.splits control.splits)
qed

lemma executeJob_mono:
  assumes "executeJob m s = Some r" "m \<le> m'"
  shows "executeJob m' s = Some r"
proof -
  from assms(2) obtain k where "m' = m + k" by (auto simp add: le_iff_add)
  with assms(1) show ?thesis
    by (auto simp add: executeJob_def executeJob_loop_mono split: option.splits if_splits)
qed

lemma run_from_start:
  assumes "loadJobs rng f initialMOS = Inr s" "readyToRun s" 
  shows "\<exists>s0. startOf rng f = Inr s0 \<and> currentPCB s0 \<noteq> None \<and> run m n rng f =
           (case executeJob m s0 of
               None \<Rightarrow> None
             | Some (Inl e) \<Rightarrow> Some (Inl e)
             | Some (Inr s2) \<Rightarrow> (case n of 0 \<Rightarrow> None | Suc k \<Rightarrow> run_loop m k s2))"
  using assms
  by (auto simp add: run_def startOf_def bnd_def readyToRun_def run_loop_unfold [of m n s]
       pickJob_def runJob_def restoreContext_def split: option.splits list.splits)

section \<open>The time limit (C2)\<close>

lemma timeLimitBatch_loaded:
  "case loadJobs seqRng timeLimitBatch initialMOS of Inr s \<Rightarrow> readyToRun s | Inl e \<Rightarrow> False"
  by code_simp

lemma timeLimitBatch_no_fuel: "firstJob 0 seqRng timeLimitBatch = None"
  by code_simp

lemma timeLimitBatch_timeUp:
  "case firstJob 1 seqRng timeLimitBatch of Some (Inr s1) \<Rightarrow> timeUp s1 | _ \<Rightarrow> False"
  by code_simp

lemma timeLimitBatch_never_halts: "run m n seqRng timeLimitBatch = None"
proof -
  from timeLimitBatch_loaded obtain s
    where s: "loadJobs seqRng timeLimitBatch initialMOS = Inr s" "readyToRun s"
    by (auto split: sum.splits)
  from run_from_start [OF s, of m n] obtain s0 where
    s0: "startOf seqRng timeLimitBatch = Inr s0"
    and r: "run m n seqRng timeLimitBatch =
           (case executeJob m s0 of
               None \<Rightarrow> None
             | Some (Inl e) \<Rightarrow> Some (Inl e)
             | Some (Inr s2) \<Rightarrow> (case n of 0 \<Rightarrow> None | Suc k \<Rightarrow> run_loop m k s2))"
    by blast
  show ?thesis
  proof (cases m)
    case 0
    with timeLimitBatch_no_fuel s0 r show ?thesis by (simp add: firstJob_def)
  next
    case (Suc m')
    from timeLimitBatch_timeUp obtain s1
      where "firstJob 1 seqRng timeLimitBatch = Some (Inr s1)" and t: "timeUp s1"
      by (auto split: option.splits sum.splits)
    with s0 have s1: "executeJob 1 s0 = Some (Inr s1)"
      by (simp add: firstJob_def)
    from executeJob_mono [OF s1, of m] Suc have "executeJob m s0 = Some (Inr s1)" by simp
    with r timeUp_never_halts [OF t] show ?thesis
      by (simp split: nat.splits)
  qed
qed

text \<open>
  Claim C2 (the code at the failing input). The batch is one job with \<open>TTL = 1\<close> and the
  program \<open>LR00\<close>, \<open>LR00\<close>. The first call of \<open>executeJob\<close> executes one instruction and
  returns with \<open>TTC = TTL = 1\<close>: nothing has been written to the output, the job is still
  current and not terminated. From there \<open>run\<close> calls \<open>executeJob\<close> again and again
  without effect: for no amount of fuel does it return, and no \<open>TIME_LIMIT\<close> block is
  ever written.
\<close>

theorem time_limit_reached_without_termination:
  "map_option (map_sum id (\<lambda>s. (outFile s, map_option (\<lambda>p. (TTC p, TTL p, terminated p)) (currentPCB s))))
     (firstJob 1 seqRng timeLimitBatch) = Some (Inr ([], Some (1, 1, False)))
   \<and> (\<forall>m n. run m n seqRng timeLimitBatch = None)"
proof -
  have "map_option (map_sum id (\<lambda>s. (outFile s, map_option (\<lambda>p. (TTC p, TTL p, terminated p)) (currentPCB s))))
     (firstJob 1 seqRng timeLimitBatch) = Some (Inr ([], Some (1, 1, False)))"
    by code_simp
  with timeLimitBatch_never_halts show ?thesis by blast
qed

section \<open>The job without instructions (C8)\<close>

lemma executeJob_unmapped:
  assumes "currentPCB s = Some p" "\<not> terminated p" "\<not> valid (pageTable p 0)" "IC (cpu s) = 0"
    "TTC p < TTL p"
  shows "executeJob m s =
           Some (Inr (s\<lparr>currentPCB := Some (p\<lparr>ctx := (ctx p)\<lparr>state := RUNNING\<rparr>\<rparr>),
                       cpu := (cpu s)\<lparr>PI := PI_PAGE_FAULT\<rparr>\<rparr>))"
  using assms
  by (cases m)
     (simp_all add: executeJob_def cycle_def cycleBody_def bnd_def fetch_def addressMap_def setPI_def)

lemma noProgram_never_halts:
  assumes "noProgram s"
  shows "run_loop m n s = None"
proof (rule run_loop_never_halts [where Inv = noProgram])
  fix t assume "noProgram t"
  then obtain p where p: "systemRunning t" "globalTimer t < MAX_TIMER" "currentPCB t = Some p"
     "\<not> terminated p" "\<not> valid (pageTable p 0)" "IC (cpu t) = 0"
    by (auto simp add: noProgram_def split: option.splits)
  show "systemRunning t \<and> globalTimer t < MAX_TIMER \<and> currentPCB t \<noteq> None
          \<and> (\<exists>s'. executeJob m t = Some (Inr s') \<and> noProgram s')"
  proof (cases "TTC p < TTL p")
    case True
    from executeJob_unmapped [OF p(3-6) True, of m] p show ?thesis
      by (simp add: noProgram_def)
  next
    case False
    with executeJob_timeUp [OF p(3,4), of m] p show ?thesis
      by (simp add: noProgram_def)
  qed
qed (rule assms)

lemma emptyBatch_loaded:
  "case loadJobs seqRng emptyBatch initialMOS of Inr s \<Rightarrow> readyToRun s | Inl e \<Rightarrow> False"
  by code_simp

lemma emptyBatch_start:
  "case startOf seqRng emptyBatch of
     Inr s \<Rightarrow> noProgram s \<and> (case currentPCB s of Some p \<Rightarrow> TTC p < TTL p | None \<Rightarrow> False)
   | Inl e \<Rightarrow> False"
  by code_simp

lemma emptyBatch_never_halts: "run m n seqRng emptyBatch = None"
proof -
  from emptyBatch_loaded obtain s
    where s: "loadJobs seqRng emptyBatch initialMOS = Inr s" "readyToRun s"
    by (auto split: sum.splits)
  from run_from_start [OF s, of m n] obtain s0 where
    s0: "startOf seqRng emptyBatch = Inr s0"
    and r: "run m n seqRng emptyBatch =
           (case executeJob m s0 of
               None \<Rightarrow> None
             | Some (Inl e) \<Rightarrow> Some (Inl e)
             | Some (Inr s2) \<Rightarrow> (case n of 0 \<Rightarrow> None | Suc k \<Rightarrow> run_loop m k s2))"
    by blast
  from emptyBatch_start s0 obtain p where p: "noProgram s0" "currentPCB s0 = Some p" "TTC p < TTL p"
    by (auto split: option.splits)
  from p have q: "\<not> terminated p" "\<not> valid (pageTable p 0)" "IC (cpu s0) = 0"
    by (simp_all add: noProgram_def)
  let ?s1 = "s0\<lparr>currentPCB := Some (p\<lparr>ctx := (ctx p)\<lparr>state := RUNNING\<rparr>\<rparr>),
                       cpu := (cpu s0)\<lparr>PI := PI_PAGE_FAULT\<rparr>\<rparr>"
  from p q have "noProgram ?s1" by (simp add: noProgram_def)
  from noProgram_never_halts [OF this] executeJob_unmapped [OF p(2) q p(3), of m] r
  show ?thesis by (simp split: nat.splits)
qed

text \<open>
  Claim C8 (the code at the failing input). The batch is one job with no program line
  between \<open>$AMJ\<close> and \<open>$DTA\<close>, so no page of the job is mapped. The first fetch does not
  read an empty word: it returns from the address mapper, which fails on page 0 with
  \<open>PI = PAGE_FAULT\<close>. \<open>executeJob\<close> returns at once with the fault pending and not
  dispatched: the job is still current and not terminated, and nothing has been written
  to the output. The loop of \<open>run\<close> then does not stop: it calls \<open>executeJob\<close> again and
  again, and whatever the fuel, \<open>run\<close> does not return.
\<close>

theorem empty_job_page_faults_and_never_halts:
  "map_sum id (\<lambda>c. case c of Return s \<Rightarrow> (True, PI (cpu s)) | Continue s \<Rightarrow> (False, PI (cpu s)))
     (firstFetch seqRng emptyBatch) = Inr (True, PI_PAGE_FAULT)
   \<and> map_option
       (map_sum id
          (\<lambda>s. (outFile s, PI (cpu s), map_option (\<lambda>p. (pid p, terminated p)) (currentPCB s),
                 systemRunning s)))
       (firstJob 0 seqRng emptyBatch)
     = Some (Inr ([], PI_PAGE_FAULT, Some (1, False), True))
   \<and> (\<forall>m n. run m n seqRng emptyBatch = None)"
proof -
  have "map_sum id (\<lambda>c. case c of Return s \<Rightarrow> (True, PI (cpu s)) | Continue s \<Rightarrow> (False, PI (cpu s)))
     (firstFetch seqRng emptyBatch) = Inr (True, PI_PAGE_FAULT)
   \<and> map_option
       (map_sum id
          (\<lambda>s. (outFile s, PI (cpu s), map_option (\<lambda>p. (pid p, terminated p)) (currentPCB s),
                 systemRunning s)))
       (firstJob 0 seqRng emptyBatch)
     = Some (Inr ([], PI_PAGE_FAULT, Some (1, False), True))"
    by code_simp
  with emptyBatch_never_halts show ?thesis by blast
qed

section \<open>The line limit (C4)\<close>

lemma handleWrite_over_limit:
  assumes "currentPCB s = Some p" "TLL p < LLC p + 1"
  shows "handleWrite s =
           Inr (s\<lparr>currentPCB := Some (p\<lparr>LLC := LLC p + 1\<rparr>), cpu := (cpu s)\<lparr>SI := SI_TERM\<rparr>\<rparr>)"
  using assms by (simp add: handleWrite_def setSI_def)

text \<open>
  Claim C4 (the code at the failing input). The batch is one job with \<open>TLL = 0\<close> and the
  program \<open>PD00\<close>, \<open>H\<close>. Executing \<open>PD00\<close> increments \<open>LLC\<close> to 1, writes no line and
  leaves \<open>SI = TERM\<close>. The dispatcher, scanning the vector table for an entry of type 3,
  selects the page-fault entry (type 3, priority 2) before the \<open>TERM\<close> entry (type 3,
  priority 0), and the job ends with the reason \<open>EM_INVALID_PAGE\<close>, not \<open>EM_LINE_LIMIT\<close>.
\<close>

theorem line_limit_reported_as_page_fault:
  "map_sum id (\<lambda>s. (outFile s, map_option LLC (currentPCB s), SI (cpu s), PI (cpu s)))
     (afterFetch executeInstruction (firstFetch seqRng lineLimitBatch)) = Inr ([], Some 1, SI_TERM, 0)
   \<and> map_option ehandler (selectEntry (zeroCPU\<lparr>SI := SI_TERM\<rparr>)) = Some HandlePageFault
   \<and> map_option (map_sum id outFile) (run 1 1 seqRng lineLimitBatch)
       = Some (Inr [TerminationBlock 2 EM_INVALID_PAGE 1 1])"
  by code_simp


section \<open>The GD instruction (C1)\<close>

text \<open>
  Claim C1 (the code at the failing input). The batch is one job with the program \<open>GD10\<close>,
  \<open>PD10\<close>, \<open>H\<close> and the data card \<open>HELLO\<close>; the page table is in frame 0, page 0 in frame
  1 and page 1 in frame 2. The read handler run for \<open>GD10\<close> pops the card and writes its
  chunks at the virtual addresses \<open>cpu.RA + i\<close> with \<open>cpu.RA = 0\<close>, that is into words 10
  and 11 (over the program), and not at virtual address 10 (word 20), which keeps the
  third instruction. \<open>executeInstruction\<close> then terminates the job with the reason
  \<open>EM_NO_ERR\<close> at \<open>TTC = 0\<close>; no job is left, and the executor dereferences the null
  \<open>currentPCB\<close>.
\<close>

theorem gd_reads_at_RA_and_terminates:
  "map_sum id (\<lambda>s. (data (mem s) 10, data (mem s) 11, data (mem s) 20, map_option dataCards (currentPCB s)))
     (afterFetch (\<lambda>s. handleRead (setSI READ s)) (firstFetch seqRng echoBatch))
     = Inr (''HELL'', ''O   '', ''H   '', Some [])
   \<and> map_sum id (\<lambda>s. (outFile s, map_option pid (currentPCB s), systemRunning s))
       (afterFetch executeInstruction (firstFetch seqRng echoBatch))
     = Inr ([TerminationBlock 1 EM_NO_ERR 0 0], None, False)
   \<and> map_option (map_sum id outFile) (run 1 1 seqRng echoBatch) = Some (Inl NullPointer)"
  by code_simp

section \<open>Release of frames at termination (C6)\<close>

lemma frameReleased_iff:
  "frameReleased m f \<longleftrightarrow>
     \<not> allocated m f \<and> \<not> locked_frames m f
     \<and> (\<forall>a. f * 10 \<le> a \<and> a \<le> f * 10 + 9 \<longrightarrow> data m a = nulWord)"
  by (auto simp add: frameReleased_def list_all_iff)

lemma frameReleased_releaseFrame: "frameReleased (releaseFrame f m) f"
  by (simp add: frameReleased_iff releaseFrame_def unlockFrame_def clearFrame_def)

lemma frameReleased_kept: "frameReleased m f \<Longrightarrow> frameReleased (releaseFrame g m) f"
  by (simp add: frameReleased_iff releaseFrame_def unlockFrame_def clearFrame_def)

lemma releaseEntry_kept:
  "frameReleased m f \<Longrightarrow> frameReleased (snd (releaseEntry i (p, m))) f"
  by (simp add: releaseEntry_def Let_def frameReleased_kept)

lemma releaseEntry_frame:
  "frame (pageTable (fst (releaseEntry i (p, m))) j) = frame (pageTable p j)"
  by (simp add: releaseEntry_def Let_def)

lemma releaseEntry_valid:
  "valid (pageTable (fst (releaseEntry i (p, m))) j) = (valid (pageTable p j) \<and> j \<noteq> i)"
  by (auto simp add: releaseEntry_def Let_def)

lemma releaseEntry_PTR_ctx:
  "PTR (fst (releaseEntry i (p, m))) = PTR p \<and> ctx (fst (releaseEntry i (p, m))) = ctx p"
  by (simp add: releaseEntry_def Let_def)

lemma releaseEntry_here:
  "valid (pageTable p i) \<Longrightarrow> 0 \<le> frame (pageTable p i) \<Longrightarrow> frame (pageTable p i) < 10 \<Longrightarrow>
     frameReleased (snd (releaseEntry i (p, m))) (frame (pageTable p i))"
  by (simp add: releaseEntry_def Let_def frameReleased_releaseFrame)

lemma fold_releaseEntry_kept:
  "frameReleased m f \<Longrightarrow> frameReleased (snd (fold releaseEntry is (p, m))) f"
proof (induction "is" arbitrary: p m)
  case Nil
  then show ?case by simp
next
  case (Cons i "is")
  from releaseEntry_kept [OF Cons.prems, of i p]
  have "frameReleased (snd (releaseEntry i (p, m))) f" .
  from Cons.IH [OF this, of "fst (releaseEntry i (p, m))"] show ?case by simp
qed

lemma fold_releaseEntry_ctx:
  "ctx (fst (fold releaseEntry is (p, m))) = ctx p"
proof (induction "is" arbitrary: p m)
  case Nil
  then show ?case by simp
next
  case (Cons i "is")
  from Cons.IH [of "fst (releaseEntry i (p, m))" "snd (releaseEntry i (p, m))"]
  show ?case by (simp add: releaseEntry_PTR_ctx)
qed

lemma fold_releaseEntry_valid:
  "valid (pageTable (fst (fold releaseEntry is (p, m))) j) = (valid (pageTable p j) \<and> j \<notin> set is)"
proof (induction "is" arbitrary: p m)
  case Nil
  then show ?case by simp
next
  case (Cons i "is")
  from Cons.IH [of "fst (releaseEntry i (p, m))" "snd (releaseEntry i (p, m))"]
  show ?case by (auto simp add: releaseEntry_valid)
qed

lemma fold_releaseEntry_released:
  "i \<in> set is \<Longrightarrow> valid (pageTable p i) \<Longrightarrow> 0 \<le> frame (pageTable p i) \<Longrightarrow>
     frame (pageTable p i) < 10 \<Longrightarrow>
     frameReleased (snd (fold releaseEntry is (p, m))) (frame (pageTable p i))"
proof (induction "is" arbitrary: p m)
  case Nil
  then show ?case by simp
next
  case (Cons j "is")
  let ?p1 = "fst (releaseEntry j (p, m))" and ?m1 = "snd (releaseEntry j (p, m))"
  show ?case
  proof (cases "i = j")
    case True
    with Cons.prems have "frameReleased ?m1 (frame (pageTable p i))"
      by (simp add: releaseEntry_here)
    from fold_releaseEntry_kept [OF this, of "is" ?p1] show ?thesis by simp
  next
    case False
    with Cons.prems have "i \<in> set is" "valid (pageTable ?p1 i)"
      "0 \<le> frame (pageTable ?p1 i)" "frame (pageTable ?p1 i) < 10"
      by (simp_all add: releaseEntry_valid releaseEntry_frame)
    from Cons.IH [OF this, of ?m1] show ?thesis by (simp add: releaseEntry_frame)
  qed
qed

lemma releaseMemory_ok:
  assumes "0 \<le> PTR p" "PTR p < 100"
  shows "releaseMemory p m =
           Inr (fold releaseEntry [0 .. 9] (p, releaseFrame (PTR p div 10) m))"
proof -
  from assms have "0 \<le> PTR p div 10" "PTR p div 10 < 10" by simp_all
  with assms show ?thesis
    by (simp add: releaseMemory_def bnd_def sdiv_nonneg Let_def)
qed

lemma terminate_result:
  assumes "currentPCB s = Some p" "releaseMemory p (mem s) = Inr (p1, m1)"
  shows "\<exists>s'. terminate code s = Inr s' \<and> mem s' = m1
           \<and> outFile s' = outFile s @ [TerminationBlock (pid p) code (TTC p) (LLC p)]
           \<and> TI (cpu s') = 0 \<and> SI (cpu s') = 0 \<and> PI (cpu s') = 0
           \<and> globalTimer s' = globalTimer s
           \<and> interruptsEnabled s' = interruptsEnabled s
           \<and> currentPCB s' = (case readyQueue s of [] \<Rightarrow> None
                                | q # qs \<Rightarrow> Some (q\<lparr>ctx := (ctx q)\<lparr>state := RUNNING\<rparr>\<rparr>))
           \<and> readyQueue s' = tl (readyQueue s)"
  using assms
  by (simp add: terminate_def bnd_def Let_def split: list.splits)

text \<open>
  What \<open>terminate\<close> releases. When it runs for the current PCB (whose \<open>PTR\<close> is a word
  address of the memory, as the loader sets it), it succeeds, and in the memory it leaves
  the page-table frame \<open>PTR / 10\<close> is released (allocation bit clear, lock clear, the ten
  words NUL); so is the frame of every page-table entry that was valid and held a frame
  number in range; and every entry of the PCB's page table has been invalidated. These
  are the frames the page table references when \<open>terminate\<close> runs, and no others.
\<close>

lemma terminate_frees_mapped_frames:
  assumes "currentPCB s = Some p" "0 \<le> PTR p" "PTR p < 100"
  shows "\<exists>s' p'. terminate code s = Inr s' \<and> releaseMemory p (mem s) = Inr (p', mem s')
           \<and> frameReleased (mem s') (PTR p div 10)
           \<and> (\<forall>i \<in> {0 .. 9}. valid (pageTable p i) \<and> 0 \<le> frame (pageTable p i)
                   \<and> frame (pageTable p i) < 10 \<longrightarrow>
                 frameReleased (mem s') (frame (pageTable p i)))
           \<and> (\<forall>i \<in> {0 .. 9}. \<not> valid (pageTable p' i))"
proof -
  let ?r = "fold releaseEntry [0 .. 9] (p, releaseFrame (PTR p div 10) (mem s))"
  have rel: "releaseMemory p (mem s) = Inr (fst ?r, snd ?r)"
    using releaseMemory_ok [OF assms(2,3)] by simp
  from terminate_result [OF assms(1) rel] obtain s'
    where s': "terminate code s = Inr s'" "mem s' = snd ?r" by blast
  have a: "frameReleased (snd ?r) (PTR p div 10)"
    by (rule fold_releaseEntry_kept) (rule frameReleased_releaseFrame)
  have b: "\<forall>i \<in> {0 .. 9}. valid (pageTable p i) \<and> 0 \<le> frame (pageTable p i)
                   \<and> frame (pageTable p i) < 10 \<longrightarrow>
                 frameReleased (snd ?r) (frame (pageTable p i))"
    by (auto intro!: fold_releaseEntry_released)
  have c: "\<forall>i \<in> {0 .. 9}. \<not> valid (pageTable (fst ?r) i)"
    by (simp add: fold_releaseEntry_valid)
  have "terminate code s = Inr s' \<and> releaseMemory p (mem s) = Inr (fst ?r, mem s')
           \<and> frameReleased (mem s') (PTR p div 10)
           \<and> (\<forall>i \<in> {0 .. 9}. valid (pageTable p i) \<and> 0 \<le> frame (pageTable p i)
                   \<and> frame (pageTable p i) < 10 \<longrightarrow>
                 frameReleased (mem s') (frame (pageTable p i)))
           \<and> (\<forall>i \<in> {0 .. 9}. \<not> valid (pageTable (fst ?r) i))"
    using s' rel a b c by simp
  then show ?thesis by blast
qed

lemma pdBatch_before_terminate:
  "case afterFetch executeInstruction (firstFetch seqRng pdBatch) of
     Inr s \<Rightarrow> (case currentPCB s of
                Some p \<Rightarrow> PTR p = 0 \<and> valid (pageTable p 0) \<and> frame (pageTable p 0) = 1
                          \<and> allocated (mem s) 0 \<and> allocated (mem s) 1
              | None \<Rightarrow> False)
   | Inl e \<Rightarrow> False"
  by code_simp

lemma pdBatch_terminate_frees:
  "\<exists>s p s' p'. afterFetch executeInstruction (firstFetch seqRng pdBatch) = Inr s
      \<and> currentPCB s = Some p \<and> PTR p = 0 \<and> valid (pageTable p 0) \<and> frame (pageTable p 0) = 1
      \<and> allocated (mem s) 0 \<and> allocated (mem s) 1
      \<and> terminate EM_INVALID_PAGE s = Inr s' \<and> releaseMemory p (mem s) = Inr (p', mem s')
      \<and> frameReleased (mem s') 0 \<and> frameReleased (mem s') 1 \<and> \<not> valid (pageTable p' 0)"
proof -
  from pdBatch_before_terminate obtain s where
    s: "afterFetch executeInstruction (firstFetch seqRng pdBatch) = Inr s"
       "case currentPCB s of
                Some p \<Rightarrow> PTR p = 0 \<and> valid (pageTable p 0) \<and> frame (pageTable p 0) = 1
                          \<and> allocated (mem s) 0 \<and> allocated (mem s) 1
              | None \<Rightarrow> False"
    by (auto split: sum.splits)
  from s(2) obtain p where
    p: "currentPCB s = Some p" "PTR p = 0" "valid (pageTable p 0)" "frame (pageTable p 0) = 1"
       "allocated (mem s) 0" "allocated (mem s) 1"
    by (auto split: option.splits)
  from terminate_frees_mapped_frames [of s p EM_INVALID_PAGE] p obtain s' p' where
    t: "terminate EM_INVALID_PAGE s = Inr s'" "releaseMemory p (mem s) = Inr (p', mem s')"
       "frameReleased (mem s') (PTR p div 10)"
       "\<forall>i \<in> {0 .. 9}. valid (pageTable p i) \<and> 0 \<le> frame (pageTable p i)
                   \<and> frame (pageTable p i) < 10 \<longrightarrow>
                 frameReleased (mem s') (frame (pageTable p i))"
       "\<forall>i \<in> {0 .. 9}. \<not> valid (pageTable p' i)"
    by auto
  from t(4) p have "frameReleased (mem s') 1" by force
  moreover from t(3) p have "frameReleased (mem s') 0" by simp
  moreover from t(5) have "\<not> valid (pageTable p' 0)" by simp
  ultimately show ?thesis using s(1) p t(1,2) by blast
qed

text \<open>
  Claim C6 (the code at the failing input). The batch is one job whose data section
  starts with a second line \<open>$DTA\<close>. At the first \<open>$DTA\<close> the program is loaded: the page
  table is in frame 0 and page 0 in frame 1. At the second \<open>$DTA\<close> the program is loaded
  again: \<open>loadProgramIntoMemory\<close> resets the page table without releasing frame 1 and
  maps page 0 to frame 2, so that frames 0, 1 and 2 are allocated for the job. The job
  executes \<open>PD00\<close> and is terminated; \<open>terminate\<close> releases frames 0 and 2, which the PCB
  references then. When \<open>run\<close> returns, no job is left in the system and frame 1 is still
  flagged allocated.
\<close>

theorem reload_leaves_frame_allocated:
  "map_sum id
     (\<lambda>l. (map (allocated (mem (sys l))) [0 .. 9],
            map_option
              (\<lambda>p. (PTR p, map (\<lambda>i. (valid (pageTable p i), frame (pageTable p i))) [0 .. 1]))
              (lpcb l)))
     (loadLines seqRng (take 3 reloadBatch)
        \<lparr>lpcb = None, readingData = False, programCode = [], allocCalls = 0, sys = initialMOS\<rparr>)
     = Inr ([True, True, False, False, False, False, False, False, False, False],
            Some (0, [(True, 1), (False, -1)]))
   \<and> map_sum id
       (\<lambda>s. (map (allocated (mem s)) [0 .. 9],
              map (\<lambda>p. (pid p, PTR p,
                         map (\<lambda>i. (valid (pageTable p i), frame (pageTable p i))) [0 .. 1]))
                (readyQueue s)))
       (loadJobs seqRng reloadBatch initialMOS)
     = Inr ([True, True, True, False, False, False, False, False, False, False],
            [(1, 0, [(True, 2), (False, -1)])])
   \<and> map_option
       (map_sum id
          (\<lambda>s. (outFile s, map_option pid (currentPCB s), map pid (readyQueue s),
                 systemRunning s, map (allocated (mem s)) [0 .. 9])))
       (run 0 1 seqRng reloadBatch)
     = Some (Inr ([TerminationBlock 1 EM_INVALID_PAGE 1 1], None, [], False,
                  [False, True, False, False, False, False, False, False, False, False]))"
  by code_simp

section \<open>Clearing of the cause fields (C5)\<close>

lemma clearCause_zero:
  "TI c = 0 \<Longrightarrow> SI c = 0 \<Longrightarrow> PI c = 0 \<Longrightarrow>
     TI (clearCause e c) = 0 \<and> SI (clearCause e c) = 0 \<and> PI (clearCause e c) = 0"
  by (simp add: clearCause_def)

lemma restoreContext_flags:
  "TI (cpu (restoreContext s)) = TI (cpu s) \<and> SI (cpu (restoreContext s)) = SI (cpu s)
   \<and> PI (cpu (restoreContext s)) = PI (cpu s)"
  by (simp add: restoreContext_def split: option.splits)

lemma terminate_clears_flags:
  assumes "currentPCB s = Some p" "0 \<le> PTR p" "PTR p < 100"
  shows "\<exists>s'. terminate code s = Inr s' \<and> TI (cpu s') = 0 \<and> SI (cpu s') = 0 \<and> PI (cpu s') = 0"
proof -
  let ?r = "fold releaseEntry [0 .. 9] (p, releaseFrame (PTR p div 10) (mem s))"
  have "releaseMemory p (mem s) = Inr (fst ?r, snd ?r)"
    using releaseMemory_ok [OF assms(2,3)] by simp
  from terminate_result [OF assms(1) this, of code] show ?thesis by blast
qed

lemma runHandler_terminating:
  assumes "h \<noteq> HandleRead" "h \<noteq> HandleWrite"
  shows "\<exists>code. runHandler h s = terminate code s"
  using assms by (cases h) auto

text \<open>
  Claim C5, amended. When the dispatcher selects an entry whose handler terminates the
  job (the timer, op-code error, operand error, page fault and \<open>TERM\<close> handlers) while a
  job is current, the dispatch succeeds and leaves all three cause fields \<open>TI\<close>, \<open>SI\<close>
  and \<open>PI\<close> at 0, whichever of them were pending: \<open>terminate\<close> resets them together.
\<close>

theorem dispatch_of_terminating_handler_clears_all:
  assumes "interruptsEnabled s" "currentPCB s = Some p" "0 \<le> PTR p" "PTR p < 100"
    and "selectEntry (cpu s) = Some e" "ehandler e \<noteq> HandleRead" "ehandler e \<noteq> HandleWrite"
  shows "\<exists>s'. handleInterrupt s = Inr s' \<and> TI (cpu s') = 0 \<and> SI (cpu s') = 0 \<and> PI (cpu s') = 0"
proof -
  let ?p = "p\<lparr>ctx := \<lparr>registers = replicate 8 0, programCounter = IC (cpu s),
                stackPointer = 0, statusRegister = 0, state = BLOCKED\<rparr>\<rparr>"
  have sc: "currentPCB (saveContext s) = Some ?p"
    using assms(2) by (simp add: saveContext_def)
  from runHandler_terminating [OF assms(6,7), of "saveContext s"] obtain code
    where rh: "runHandler (ehandler e) (saveContext s) = terminate code (saveContext s)" by blast
  from terminate_clears_flags [OF sc, of code] assms(3,4) obtain s1
    where s1: "terminate code (saveContext s) = Inr s1"
      "TI (cpu s1) = 0" "SI (cpu s1) = 0" "PI (cpu s1) = 0"
    by auto
  from assms(1,5) rh s1(1)
  have "handleInterrupt s = Inr (restoreContext (s1\<lparr>cpu := clearCause e (cpu s1)\<rparr>))"
    by (simp add: handleInterrupt_def bnd_def)
  with clearCause_zero [OF s1(2-4), of e] show ?thesis
    by (simp add: restoreContext_flags)
qed

lemma pdBatch_pending:
  "case afterFetch executeInstruction (firstFetch seqRng pdBatch) of
     Inr s \<Rightarrow> interruptsEnabled s \<and> SI (cpu s) = WRITE \<and> PI (cpu s) = PI_PAGE_FAULT
              \<and> (case currentPCB s of Some p \<Rightarrow> 0 \<le> PTR p \<and> PTR p < 100 | None \<Rightarrow> False)
              \<and> (case selectEntry (cpu s) of
                    Some e \<Rightarrow> ehandler e = HandlePageFault
                  | None \<Rightarrow> False)
   | Inl e \<Rightarrow> False"
  by code_simp

theorem dispatch_of_terminating_handler_clears_all_witness:
  "\<exists>s p e s'. afterFetch executeInstruction (firstFetch seqRng pdBatch) = Inr s
      \<and> interruptsEnabled s \<and> currentPCB s = Some p \<and> 0 \<le> PTR p \<and> PTR p < 100
      \<and> selectEntry (cpu s) = Some e \<and> ehandler e = HandlePageFault
      \<and> SI (cpu s) = WRITE \<and> PI (cpu s) = PI_PAGE_FAULT
      \<and> handleInterrupt s = Inr s' \<and> TI (cpu s') = 0 \<and> SI (cpu s') = 0 \<and> PI (cpu s') = 0"
proof -
  from pdBatch_pending obtain s where
    s: "afterFetch executeInstruction (firstFetch seqRng pdBatch) = Inr s"
       "interruptsEnabled s" "SI (cpu s) = WRITE" "PI (cpu s) = PI_PAGE_FAULT"
       "case currentPCB s of Some p \<Rightarrow> 0 \<le> PTR p \<and> PTR p < 100 | None \<Rightarrow> False"
       "case selectEntry (cpu s) of Some e \<Rightarrow> ehandler e = HandlePageFault | None \<Rightarrow> False"
    by (auto split: sum.splits)
  from s(5) obtain p where p: "currentPCB s = Some p" "0 \<le> PTR p" "PTR p < 100"
    by (auto split: option.splits)
  from s(6) obtain e where e: "selectEntry (cpu s) = Some e" "ehandler e = HandlePageFault"
    by (auto split: option.splits)
  from dispatch_of_terminating_handler_clears_all [OF s(2) p e(1)] e(2) obtain s' where
    "handleInterrupt s = Inr s'" "TI (cpu s') = 0" "SI (cpu s') = 0" "PI (cpu s') = 0"
    by auto
  with s(1-4) p e show ?thesis by blast
qed

text \<open>
  Claim C5 as stated fails in the round that executes \<open>PD00\<close> of the one-instruction job.
  After the instruction \<open>SI = WRITE\<close> and \<open>PI = PAGE_FAULT\<close> are both pending and the
  dispatcher selects the page-fault handler. When the round has dispatched it, \<open>SI\<close> is 0
  as well as \<open>PI\<close>: the pending \<open>WRITE\<close> has not kept its value for a later check.
\<close>

theorem pending_write_cleared_by_page_fault_dispatch:
  "map_sum id (\<lambda>s. (SI (cpu s), PI (cpu s), TI (cpu s), map_option ehandler (selectEntry (cpu s))))
     (afterFetch executeInstruction (firstFetch seqRng pdBatch))
     = Inr (WRITE, PI_PAGE_FAULT, 0, Some HandlePageFault)
   \<and> map_sum id
       (\<lambda>c. case c of
              Return s \<Rightarrow> (SI (cpu s), PI (cpu s), TI (cpu s), outFile s)
            | Continue s \<Rightarrow> (SI (cpu s), PI (cpu s), TI (cpu s), outFile s))
       (bnd (firstFetch seqRng pdBatch)
          (\<lambda>c. case c of Return s1 \<Rightarrow> Inr (Return s1) | Continue s2 \<Rightarrow> execute s2))
     = Inr (0, 0, 0, [TerminationBlock 1 EM_INVALID_PAGE 1 1])"
  by code_simp

section \<open>Ticks and the ready queue across one round\<close>

lemma steady_refl [simp]: "steady s s"
  by (simp add: steady_def)

lemma steady_trans: "steady s t \<Longrightarrow> steady t u \<Longrightarrow> steady s u"
  by (simp add: steady_def)

lemma steady_updates [simp]:
  "steady s (t\<lparr>cpu := c\<rparr>) = steady s t"
  "steady s (t\<lparr>currentPCB := x\<rparr>) = steady s t"
  "steady s (t\<lparr>mem := m\<rparr>) = steady s t"
  "steady s (t\<lparr>outFile := out\<rparr>) = steady s t"
  "steady s (t\<lparr>systemRunning := b\<rparr>) = steady s t"
  "steady (t\<lparr>cpu := c\<rparr>) s = steady t s"
  "steady (t\<lparr>currentPCB := x\<rparr>) s = steady t s"
  "steady (t\<lparr>mem := m\<rparr>) s = steady t s"
  "steady (t\<lparr>outFile := out\<rparr>) s = steady t s"
  by (simp_all add: steady_def)

lemma steady_setPI [simp]: "steady s (setPI v t) = steady s t" "steady (setPI v t) s = steady t s"
  by (simp_all add: setPI_def)

lemma steady_setSI [simp]: "steady s (setSI v t) = steady s t" "steady (setSI v t) s = steady t s"
  by (simp_all add: setSI_def)

lemma steady_saveContext [simp]:
  "steady s (saveContext t) = steady s t" "steady (saveContext t) s = steady t s"
  by (simp_all add: saveContext_def split: option.splits)

lemma steady_restoreContext [simp]:
  "steady s (restoreContext t) = steady s t" "steady (restoreContext t) s = steady t s"
  by (simp_all add: restoreContext_def split: option.splits)

lemma addressMap_steady:
  "addressMap VA ra s = Inr (ok, ra', s') \<Longrightarrow> steady s s'"
  by (auto simp add: addressMap_def Let_def split: if_splits option.splits)

lemma readChunks_steady:
  "readChunks rest k s = Inr s' \<Longrightarrow> steady s s'"
proof (induction rest k s rule: readChunks.induct)
  case (1 rest k s)
  show ?case
  proof (cases "rest = []")
    case True
    with "1.prems" show ?thesis by (simp add: readChunks.simps [of "[]" k s])
  next
    case ne: False
    from "1.prems" ne obtain ok ra s1 where
      am: "addressMap (RA (cpu s) + k) 0 s = Inr (ok, ra, s1)"
      by (auto simp add: readChunks.simps [of rest k s] Let_def split: sum.splits)
    from addressMap_steady [OF am] have st: "steady s s1" .
    show ?thesis
    proof (cases ok)
      case False
      with "1.prems" ne am st show ?thesis
        by (simp add: readChunks.simps [of rest k s] Let_def)
    next
      case True
      let ?s2 = "s1\<lparr>mem := (mem s1)\<lparr>data := (data (mem s1))(ra := resizeWord (take 4 rest))\<rparr>\<rparr>"
      from "1.prems" ne am True
      have rc: "readChunks (drop 4 rest) (k + 1) ?s2 = Inr s'"
        by (simp add: readChunks.simps [of rest k s] Let_def)
      from "1.IH" [OF ne refl refl am refl refl] True rc
      have "steady ?s2 s'" by simp
      with st show ?thesis by (auto intro: steady_trans)
    qed
  qed
qed

lemma handleRead_steady: "handleRead s = Inr s' \<Longrightarrow> steady s s'"
  by (auto simp add: handleRead_def Let_def split: option.splits if_splits
        dest!: readChunks_steady)

lemma handleWrite_steady: "handleWrite s = Inr s' \<Longrightarrow> steady s s'"
  by (auto simp add: handleWrite_def Let_def split: option.splits if_splits sum.splits
        dest!: addressMap_steady)

lemma terminate_steady: "terminate code s = Inr s' \<Longrightarrow> steady s s'"
  by (auto simp add: terminate_def bnd_def Let_def steady_def
        split: option.splits sum.splits list.splits if_splits)

lemma runHandler_steady: "runHandler h s = Inr s' \<Longrightarrow> steady s s'"
  by (cases h) (auto dest: terminate_steady handleRead_steady handleWrite_steady)

lemma handleInterrupt_steady: "handleInterrupt s = Inr s' \<Longrightarrow> steady s s'"
  by (auto simp add: handleInterrupt_def bnd_def split: if_splits option.splits sum.splits
        dest!: runHandler_steady)

lemma executeArithmeticLogic_steady: "executeArithmeticLogic opc target s = Inr s' \<Longrightarrow> steady s s'"
  by (auto simp add: executeArithmeticLogic_def split: sum.splits if_splits
        dest!: addressMap_steady)

lemma executeInstruction_steady: "executeInstruction s = Inr s' \<Longrightarrow> steady s s'"
  apply (simp add: executeInstruction_def Let_def bnd_def split: if_splits sum.splits prod.splits)
  apply (auto dest!: terminate_steady handleRead_steady handleWrite_steady handleInterrupt_steady
        executeArithmeticLogic_steady addressMap_steady intro: steady_trans)
  done

lemma fetch_steady: "fetch s = Inr (Continue s2) \<Longrightarrow> steady s s2"
  by (auto simp add: fetch_def Let_def split: sum.splits if_splits dest!: addressMap_steady)

lemma execute_tick:
  assumes "execute s2 = Inr (Continue s5)"
  shows "globalTimer s5 = globalTimer s2 + 1 \<and> length (readyQueue s5) \<le> length (readyQueue s2)
         \<and> currentPCB s5 \<noteq> None"
proof -
  from assms obtain s3 q where
    s3: "executeInstruction s2 = Inr s3" "currentPCB s3 = Some q"
    by (auto simp add: execute_def bnd_def split: sum.splits option.splits)
  let ?s4 = "s3\<lparr>currentPCB := Some (q\<lparr>TTC := TTC q + 1\<rparr>), globalTimer := globalTimer s3 + 1\<rparr>"
  from executeInstruction_steady [OF s3(1)] have st: "steady s2 s3" .
  show ?thesis
  proof (cases "SI (cpu ?s4) \<noteq> 0 \<or> PI (cpu ?s4) \<noteq> 0 \<or> TI (cpu ?s4) \<noteq> 0")
    case True
    with assms s3 have hi: "handleInterrupt ?s4 = Inr s5" and cur: "currentPCB s5 \<noteq> None"
      by (auto simp add: execute_def bnd_def Let_def split: sum.splits option.splits if_splits)
    from handleInterrupt_steady [OF hi] st cur show ?thesis
      by (simp add: steady_def)
  next
    case False
    with assms s3 have "s5 = ?s4"
      by (auto simp add: execute_def bnd_def Let_def)
    with st show ?thesis by (simp add: steady_def)
  qed
qed

lemma cycleBody_tick:
  assumes "cycleBody s = Inr (Continue s5)"
  shows "globalTimer s5 = globalTimer s + 1 \<and> length (readyQueue s5) \<le> length (readyQueue s)
         \<and> currentPCB s5 \<noteq> None"
proof -
  from assms obtain s2 where s2: "fetch s = Inr (Continue s2)" "execute s2 = Inr (Continue s5)"
    by (auto simp add: cycleBody_def bnd_def split: option.splits if_splits sum.splits control.splits)
  from fetch_steady [OF s2(1)] execute_tick [OF s2(2)] show ?thesis
    by (simp add: steady_def)
qed

lemma smod_10_dvd: "x smod 10 = 0 \<longleftrightarrow> 10 dvd (x::int)"
proof -
  have "x smod 10 = 0 \<longleftrightarrow> \<bar>x\<bar> mod 10 = 0"
    by (cases "x = 0") (auto simp add: signed_modulo_int_def sgn_if)
  also have "\<dots> \<longleftrightarrow> 10 dvd \<bar>x\<bar>" by (simp add: dvd_eq_mod_eq_0)
  also have "\<dots> \<longleftrightarrow> 10 dvd x" by simp
  finally show ?thesis .
qed

lemma contextSwitch_effect:
  assumes "currentPCB s = Some p" "readyQueue s = q # qs"
  shows "\<exists>s'. contextSwitch s = Inr s'
           \<and> currentPCB s' = Some (q\<lparr>ctx := (ctx q)\<lparr>state := RUNNING\<rparr>\<rparr>)
           \<and> readyQueue s' = qs @ [p\<lparr>ctx := \<lparr>registers = replicate 8 0,
                  programCounter = IC (cpu s), stackPointer = 0, statusRegister = 0,
                  state = BLOCKED\<rparr>\<rparr>]
           \<and> IC (cpu s') = (if programCounter (ctx q) = -1 then 0 else programCounter (ctx q))
           \<and> globalTimer s' = globalTimer s"
  using assms by (simp add: contextSwitch_def saveContext_def restoreContext_def)

lemma contextSwitch_steady:
  assumes "contextSwitch s = Inr s'"
  shows "steady s s'"
proof -
  from assms obtain p q qs where
    q: "readyQueue (saveContext s) @ [p] = q # qs"
    and s': "s' = restoreContext ((saveContext s)\<lparr>currentPCB := Some q, readyQueue := qs\<rparr>)"
    by (auto simp add: contextSwitch_def Let_def split: option.splits list.splits)
  from arg_cong [OF q, of length] have "length qs = length (readyQueue (saveContext s))"
    by simp
  also have "\<dots> = length (readyQueue s)"
    by (simp add: saveContext_def split: option.splits)
  finally have "length qs = length (readyQueue s)" .
  with s' show ?thesis
    by (simp add: steady_def restoreContext_def saveContext_def split: option.splits)
qed

lemma timeSlice_steady: "timeSlice s = Inr s' \<Longrightarrow> steady s s'"
  by (auto simp add: timeSlice_def dest: contextSwitch_steady split: if_splits)

lemma cycle_Continue:
  "cycle s = Inr (Continue s') \<Longrightarrow> \<exists>s5. cycleBody s = Inr (Continue s5) \<and> timeSlice s5 = Inr s'"
  by (auto simp add: cycle_def bnd_def split: sum.splits control.splits)

lemma cycle_tick:
  assumes "cycle s = Inr (Continue s')"
  shows "globalTimer s' = globalTimer s + 1 \<and> length (readyQueue s') \<le> length (readyQueue s)"
proof -
  from cycle_Continue [OF assms] obtain s5 where
    "cycleBody s = Inr (Continue s5)" "timeSlice s5 = Inr s'" by blast
  from cycleBody_tick [OF this(1)] timeSlice_steady [OF this(2)] show ?thesis
    by (simp add: steady_def)
qed

lemma cycles_tick:
  "cycles k b = Some c \<Longrightarrow>
     globalTimer c = globalTimer b + int k \<and> length (readyQueue c) \<le> length (readyQueue b)"
proof (induction k arbitrary: b)
  case 0
  then show ?case by simp
next
  case (Suc k)
  from Suc.prems obtain b' where b': "cycle b = Inr (Continue b')" "cycles k b' = Some c"
    by (auto split: sum.splits control.splits)
  from cycle_tick [OF b'(1)] Suc.IH [OF b'(2)] show ?case by simp
qed

lemma cycles_add:
  "cycles (j + k) s = (case cycles j s of Some t \<Rightarrow> cycles k t | None \<Rightarrow> None)"
  by (induction j arbitrary: s) (auto split: sum.splits control.splits)

text \<open>
  The rounds that \<open>cycles\<close> follows are the first rounds of the loop of \<open>executeJob\<close>: after
  \<open>k\<close> rounds that go on the loop continues from the state reached, and if one of the
  first \<open>k\<close> rounds leaves the loop, the loop has its result with \<open>k - 1\<close> units of fuel.
\<close>

lemma executeJob_loop_cycles:
  "executeJob_loop (k + n) s =
     (case cycles k s of
        Some s' \<Rightarrow> executeJob_loop n s'
      | None \<Rightarrow> executeJob_loop (k - 1) s)"
proof (induction k arbitrary: s)
  case 0
  show ?case by simp
next
  case (Suc k)
  show ?case
  proof (cases "cycle s")
    case (Inl e)
    then show ?thesis by (cases k) simp_all
  next
    case (Inr c)
    show ?thesis
    proof (cases c)
      case (Return s1)
      with Inr show ?thesis by (cases k) simp_all
    next
      case (Continue s1)
      show ?thesis
      proof (cases "cycles k s1")
        case None
        then obtain j where j: "k = Suc j" by (cases k) simp_all
        from Suc.IH [of s1] None Inr Continue show ?thesis by (simp add: j)
      next
        case (Some t)
        from Suc.IH [of s1] Some Inr Continue show ?thesis by simp
      qed
    qed
  qed
qed

lemma quiet_prefix:
  "quiet k b \<Longrightarrow> j < k \<Longrightarrow> cycles j b = Some t \<Longrightarrow> \<not> preempts t"
proof (induction k arbitrary: b j)
  case 0
  then show ?case by simp
next
  case (Suc k)
  show ?case
  proof (cases j)
    case 0
    with Suc.prems show ?thesis by simp
  next
    case (Suc j')
    with Suc.prems obtain b' where b': "cycle b = Inr (Continue b')" "cycles j' b' = Some t"
      by (auto split: sum.splits control.splits)
    with Suc.prems have "quiet k b'" by simp
    from Suc.IH [OF this _ b'(2)] Suc Suc.prems show ?thesis by simp
  qed
qed

lemma preempts_iff:
  "preempts s \<longleftrightarrow>
     (\<exists>s5. cycleBody s = Inr (Continue s5) \<and> 10 dvd globalTimer s5 \<and> readyQueue s5 \<noteq> [])"
  by (auto simp add: preempts_def smod_10_dvd split: sum.splits control.splits)

lemma quantum_is_ten:
  assumes pa: "preempts a" and ca: "cycle a = Inr (Continue b)"
    and q: "quiet k b" and ck: "cycles k b = Some c" and pc: "preempts c"
  shows "k = 9"
proof -
  from pa obtain s5 where s5: "cycleBody a = Inr (Continue s5)" "10 dvd globalTimer s5"
    by (auto simp add: preempts_iff)
  from cycle_Continue [OF ca] s5(1) have "timeSlice s5 = Inr b" by auto
  from timeSlice_steady [OF this] s5(2) have tb: "10 dvd globalTimer b"
    by (simp add: steady_def)
  from pc obtain t5 where t5: "cycleBody c = Inr (Continue t5)" "10 dvd globalTimer t5"
    "readyQueue t5 \<noteq> []"
    by (auto simp add: preempts_iff)
  from cycleBody_tick [OF t5(1)] t5(3)
  have tc: "globalTimer t5 = globalTimer c + 1" and qc: "readyQueue c \<noteq> []" by auto
  from cycles_tick [OF ck] have gk: "globalTimer c = globalTimer b + int k" by simp
  from t5(2) tc gk have "10 dvd (globalTimer b + (int k + 1))" by (simp add: add.assoc)
  with tb have "10 dvd (int k + 1)" by (simp add: dvd_add_right_iff)
  then have k9: "9 \<le> k" by presburger
  show ?thesis
  proof (rule ccontr)
    assume "k \<noteq> 9"
    with k9 obtain k' where k: "k = 9 + Suc k'"
      by (metis Suc_leI le_neq_implies_less less_iff_Suc_add add_Suc_right)
    from ck have "cycles (9 + Suc k') b = Some c" unfolding k .
    then have "(case cycles 9 b of Some t \<Rightarrow> cycles (Suc k') t | None \<Rightarrow> None) = Some c"
      unfolding cycles_add .
    then obtain c9 where c9: "cycles 9 b = Some c9" "cycles (Suc k') c9 = Some c"
      by (cases "cycles 9 b") auto
    from c9(2) obtain c10 where c10: "cycle c9 = Inr (Continue c10)" "cycles k' c10 = Some c"
      by (auto split: sum.splits control.splits)
    from quiet_prefix [OF q _ c9(1)] k have np: "\<not> preempts c9" by simp
    from cycle_Continue [OF c10(1)] obtain u5 where
      u5: "cycleBody c9 = Inr (Continue u5)" "timeSlice u5 = Inr c10" by blast
    from cycleBody_tick [OF u5(1)] cycles_tick [OF c9(1)]
    have "globalTimer u5 = globalTimer b + 10" by simp
    with tb have "10 dvd globalTimer u5" by simp
    with np u5(1) have "readyQueue u5 = []" by (auto simp add: preempts_iff)
    with u5(2) have "readyQueue c10 = []" by (simp add: timeSlice_def)
    with cycles_tick [OF c10(2)] have "readyQueue c = []" by simp
    with qc show False by simp
  qed
qed

section \<open>Preemption and the quantum (C7)\<close>

text \<open>
  When the executor preempts. A round that reaches the time-slice block has advanced the
  global tick counter by exactly one (one tick per executed instruction) and has a current
  PCB. The round ends with a preemption exactly when the counter is then a multiple of 10
  and the ready queue is not empty; in that case the current PCB, with its context saved
  (state \<open>BLOCKED\<close>, program counter \<open>IC\<close>), is appended to the queue, the head of the
  queue becomes current in state \<open>RUNNING\<close>, and \<open>IC\<close> is restored from its context (0 for
  a job that has never run); otherwise the round ends in the state that reached the
  block. Consequently, if a round preempts and, after \<open>k\<close> further rounds without
  preemption, the next round preempts, then \<open>k = 9\<close>: exactly 10 instructions execute
  between two successive preemptions. The saved context holds \<open>IC\<close> and eight zeros for
  the registers; nothing of \<open>R\<close> and \<open>C\<close> is in it.
\<close>

lemma preemption_round_and_quantum:
  "(cycleBody s = Inr (Continue s5) \<longrightarrow>
      globalTimer s5 = globalTimer s + 1
      \<and> (\<exists>p. currentPCB s5 = Some p
            \<and> (if 10 dvd globalTimer s5 \<and> readyQueue s5 \<noteq> []
                then preempts s
                  \<and> (\<exists>s'. cycle s = Inr (Continue s')
                        \<and> currentPCB s' =
                            Some ((hd (readyQueue s5))\<lparr>ctx := (ctx (hd (readyQueue s5)))\<lparr>state := RUNNING\<rparr>\<rparr>)
                        \<and> readyQueue s' =
                            tl (readyQueue s5) @ [p\<lparr>ctx := \<lparr>registers = replicate 8 0,
                               programCounter = IC (cpu s5), stackPointer = 0,
                               statusRegister = 0, state = BLOCKED\<rparr>\<rparr>]
                        \<and> IC (cpu s') =
                            (if programCounter (ctx (hd (readyQueue s5))) = -1 then 0
                             else programCounter (ctx (hd (readyQueue s5))))
                        \<and> globalTimer s' = globalTimer s5)
                else \<not> preempts s \<and> cycle s = Inr (Continue s5))))
   \<and> (preempts a \<and> cycle a = Inr (Continue b) \<and> quiet k b \<and> cycles k b = Some c \<and> preempts c
        \<longrightarrow> k = 9)"
proof (intro conjI impI)
  assume cb: "cycleBody s = Inr (Continue s5)"
  from cycleBody_tick [OF cb] show "globalTimer s5 = globalTimer s + 1" by simp
  from cycleBody_tick [OF cb] obtain p where p: "currentPCB s5 = Some p" by auto
  show "\<exists>p. currentPCB s5 = Some p
            \<and> (if 10 dvd globalTimer s5 \<and> readyQueue s5 \<noteq> []
                then preempts s
                  \<and> (\<exists>s'. cycle s = Inr (Continue s')
                        \<and> currentPCB s' =
                            Some ((hd (readyQueue s5))\<lparr>ctx := (ctx (hd (readyQueue s5)))\<lparr>state := RUNNING\<rparr>\<rparr>)
                        \<and> readyQueue s' =
                            tl (readyQueue s5) @ [p\<lparr>ctx := \<lparr>registers = replicate 8 0,
                               programCounter = IC (cpu s5), stackPointer = 0,
                               statusRegister = 0, state = BLOCKED\<rparr>\<rparr>]
                        \<and> IC (cpu s') =
                            (if programCounter (ctx (hd (readyQueue s5))) = -1 then 0
                             else programCounter (ctx (hd (readyQueue s5))))
                        \<and> globalTimer s' = globalTimer s5)
                else \<not> preempts s \<and> cycle s = Inr (Continue s5))"
  proof (cases "10 dvd globalTimer s5 \<and> readyQueue s5 \<noteq> []")
    case True
    then obtain q qs where q: "readyQueue s5 = q # qs" by (cases "readyQueue s5") auto
    from contextSwitch_effect [OF p q] obtain s' where
      s': "contextSwitch s5 = Inr s'"
          "currentPCB s' = Some (q\<lparr>ctx := (ctx q)\<lparr>state := RUNNING\<rparr>\<rparr>)"
          "readyQueue s' = qs @ [p\<lparr>ctx := \<lparr>registers = replicate 8 0,
                  programCounter = IC (cpu s5), stackPointer = 0, statusRegister = 0,
                  state = BLOCKED\<rparr>\<rparr>]"
          "IC (cpu s') = (if programCounter (ctx q) = -1 then 0 else programCounter (ctx q))"
          "globalTimer s' = globalTimer s5"
      by blast
    from True cb s'(1) have "cycle s = Inr (Continue s')"
      by (simp add: cycle_def bnd_def timeSlice_def smod_10_dvd)
    moreover from True cb have "preempts s" by (auto simp add: preempts_iff)
    ultimately show ?thesis using True p q s'(2-5) by auto
  next
    case False
    with cb have "cycle s = Inr (Continue s5)"
      by (auto simp add: cycle_def bnd_def timeSlice_def smod_10_dvd)
    moreover from False cb have "\<not> preempts s" by (auto simp add: preempts_iff)
    ultimately show ?thesis using False p by auto
  qed
next
  assume "preempts a \<and> cycle a = Inr (Continue b) \<and> quiet k b \<and> cycles k b = Some c \<and> preempts c"
  then show "k = 9" using quantum_is_ten [of a b k c] by blast
qed

lemma loopBatch_two_preemptions:
  "case startOf seqRng loopBatch of
     Inr s0 \<Rightarrow>
       (case cycles 9 s0 of
          Some a \<Rightarrow>
            preempts a
            \<and> (case cycle a of
                 Inr (Continue b) \<Rightarrow>
                   globalTimer b = 10 \<and> map_option pid (currentPCB b) = Some 2
                   \<and> map pid (readyQueue b) = [1]
                   \<and> quiet 9 b
                   \<and> (case cycles 9 b of
                        Some c \<Rightarrow> globalTimer c = 19 \<and> preempts c
                      | None \<Rightarrow> False)
               | _ \<Rightarrow> False)
        | None \<Rightarrow> False)
   | Inl e \<Rightarrow> False"
  by code_simp

lemma loopBatch_quantum:
  "\<exists>s0 a s5 b c. startOf seqRng loopBatch = Inr s0 \<and> cycles 9 s0 = Some a
      \<and> cycleBody a = Inr (Continue s5) \<and> globalTimer s5 = globalTimer a + 1
      \<and> preempts a \<and> cycle a = Inr (Continue b) \<and> globalTimer b = 10
      \<and> map_option pid (currentPCB b) = Some 2 \<and> map pid (readyQueue b) = [1]
      \<and> quiet 9 b \<and> cycles 9 b = Some c \<and> preempts c"
proof -
  from loopBatch_two_preemptions obtain s0 where
    s0: "startOf seqRng loopBatch = Inr s0"
    and r0: "case cycles 9 s0 of
          Some a \<Rightarrow>
            preempts a
            \<and> (case cycle a of
                 Inr (Continue b) \<Rightarrow>
                   globalTimer b = 10 \<and> map_option pid (currentPCB b) = Some 2
                   \<and> map pid (readyQueue b) = [1]
                   \<and> quiet 9 b
                   \<and> (case cycles 9 b of
                        Some c \<Rightarrow> globalTimer c = 19 \<and> preempts c
                      | None \<Rightarrow> False)
               | _ \<Rightarrow> False)
        | None \<Rightarrow> False"
    by (cases "startOf seqRng loopBatch") simp_all
  from r0 obtain a where
    a: "cycles 9 s0 = Some a" "preempts a"
    and r1: "case cycle a of
                 Inr (Continue b) \<Rightarrow>
                   globalTimer b = 10 \<and> map_option pid (currentPCB b) = Some 2
                   \<and> map pid (readyQueue b) = [1]
                   \<and> quiet 9 b
                   \<and> (case cycles 9 b of
                        Some c \<Rightarrow> globalTimer c = 19 \<and> preempts c
                      | None \<Rightarrow> False)
               | _ \<Rightarrow> False"
    by (cases "cycles 9 s0") simp_all
  from r1 obtain b where
    b: "cycle a = Inr (Continue b)" "globalTimer b = 10"
       "map_option pid (currentPCB b) = Some 2" "map pid (readyQueue b) = [1]" "quiet 9 b"
    and r2: "case cycles 9 b of Some c \<Rightarrow> globalTimer c = 19 \<and> preempts c | None \<Rightarrow> False"
    by (cases "cycle a"; simp split: control.splits)
  from r2 obtain c where c: "cycles 9 b = Some c" "preempts c"
    by (cases "cycles 9 b") simp_all
  from a(2) obtain s5 where s5: "cycleBody a = Inr (Continue s5)"
    by (auto simp add: preempts_iff)
  from preemption_round_and_quantum [of a s5 a b 9 c] s5
  have t: "globalTimer s5 = globalTimer a + 1"
    by blast
  show ?thesis
    by (intro exI conjI) (rule s0 a b c s5 t)+
qed

text \<open>
  Claim C7 (the code at the failing input). The batch is two jobs. After nine ticks the
  first job is current with \<open>R = BT10\<close> and \<open>C\<close> set. The tenth round preempts it: the
  context saved in its PCB holds \<open>IC = 10\<close> and zeros for the registers, and the second
  job starts at \<open>IC = 0\<close> with the \<open>R\<close> and \<open>C\<close> of the first still in the CPU. Its
  \<open>BT00\<close> therefore jumps, and it loops for ten ticks until it is preempted at tick 20,
  whereas the same job run alone starts with \<open>C\<close> clear and leaves the loop of
  \<open>executeJob\<close> after two instructions. At tick 20 the first job becomes current again:
  \<open>IC = 10\<close> is restored, but \<open>R\<close> is the word \<open>LR00\<close> that the second job loaded, not the
  \<open>BT10\<close> the first job had when it was preempted. The first job has then used its time
  limit, and \<open>executeJob\<close> returns in that state, after 20 rounds and not before.
\<close>

theorem registers_leak_across_preemption:
  "map_sum id (\<lambda>s. map_option switchView (cycles 9 s)) (startOf seqRng switchBatch)
     = Inr (Some (9, Some (1, 9, 10), 11, ''BT10'', True,
                  [(2, 0, [0, 0, 0, 0, 0, 0, 0, 0], -1, READY)]))
   \<and> map_sum id (\<lambda>s. map_option switchView (cycles 10 s)) (startOf seqRng switchBatch)
     = Inr (Some (10, Some (2, 0, 50), 0, ''BT10'', True,
                  [(1, 10, [0, 0, 0, 0, 0, 0, 0, 0], 10, BLOCKED)]))
   \<and> map_option (map_sum id switchView) (firstJob 20 seqRng switchBatch)
     = Some (Inr (20, Some (1, 10, 10), 10, ''LR00'', True,
                  [(2, 10, [0, 0, 0, 0, 0, 0, 0, 0], 0, BLOCKED)]))
   \<and> firstJob 19 seqRng switchBatch = None
   \<and> map_option (map_sum id switchView) (firstJob 2 seqRng (drop 6 switchBatch))
     = Some (Inr (2, Some (2, 2, 50), 2, ''LR00'', False, []))"
  by code_simp

section \<open>Frame allocation (C10)\<close>

lemma allocateFrame_loop_spec:
  "(fst (allocateFrame_loop draws a m) = -1 \<and> snd (allocateFrame_loop draws a m) = m
      \<and> (\<forall>k. a \<le> k \<and> k < 20 \<longrightarrow> allocated m (int (draws k mod 10))))
   \<or> (\<exists>k. a \<le> k \<and> k < 20 \<and> fst (allocateFrame_loop draws a m) = int (draws k mod 10)
          \<and> \<not> allocated m (int (draws k mod 10))
          \<and> (\<forall>j. a \<le> j \<and> j < k \<longrightarrow> allocated m (int (draws j mod 10)))
          \<and> snd (allocateFrame_loop draws a m)
              = m\<lparr>allocated := (allocated m)(int (draws k mod 10) := True)\<rparr>)"
proof (induction draws a m rule: allocateFrame_loop.induct)
  case (1 draws a m)
  show ?case
  proof (cases "a < 20")
    case False
    then show ?thesis by (auto simp add: allocateFrame_loop.simps [of draws a m])
  next
    case lt: True
    show ?thesis
    proof (cases "allocated m (int (draws a mod 10))")
      case False
      with lt have "allocateFrame_loop draws a m =
          (int (draws a mod 10), m\<lparr>allocated := (allocated m)(int (draws a mod 10) := True)\<rparr>)"
        by (simp add: allocateFrame_loop.simps [of draws a m] Let_def)
      with lt False
      have "a \<le> a \<and> a < 20 \<and> fst (allocateFrame_loop draws a m) = int (draws a mod 10)
          \<and> \<not> allocated m (int (draws a mod 10))
          \<and> (\<forall>j. a \<le> j \<and> j < a \<longrightarrow> allocated m (int (draws j mod 10)))
          \<and> snd (allocateFrame_loop draws a m)
              = m\<lparr>allocated := (allocated m)(int (draws a mod 10) := True)\<rparr>"
        by auto
      then show ?thesis by blast
    next
      case True
      with lt have eq: "allocateFrame_loop draws a m = allocateFrame_loop draws (a + 1) m"
        by (simp add: allocateFrame_loop.simps [of draws a m] Let_def)
      from True have nn: "\<not> \<not> allocated m (int (draws a mod 10))" by simp
      note ih = "1.IH" [OF lt refl nn]
      have step: "\<And>j. a \<le> j \<Longrightarrow> j = a \<or> a + 1 \<le> j" by arith
      from ih show ?thesis
      proof
        assume n: "fst (allocateFrame_loop draws (a + 1) m) = -1
          \<and> snd (allocateFrame_loop draws (a + 1) m) = m
          \<and> (\<forall>k. a + 1 \<le> k \<and> k < 20 \<longrightarrow> allocated m (int (draws k mod 10)))"
        with True step have "\<forall>k. a \<le> k \<and> k < 20 \<longrightarrow> allocated m (int (draws k mod 10))"
          by metis
        with n eq show ?thesis by simp
      next
        assume "\<exists>k. a + 1 \<le> k \<and> k < 20
              \<and> fst (allocateFrame_loop draws (a + 1) m) = int (draws k mod 10)
              \<and> \<not> allocated m (int (draws k mod 10))
              \<and> (\<forall>j. a + 1 \<le> j \<and> j < k \<longrightarrow> allocated m (int (draws j mod 10)))
              \<and> snd (allocateFrame_loop draws (a + 1) m)
                  = m\<lparr>allocated := (allocated m)(int (draws k mod 10) := True)\<rparr>"
        then obtain k where k: "a + 1 \<le> k" "k < 20"
              "fst (allocateFrame_loop draws (a + 1) m) = int (draws k mod 10)"
              "\<not> allocated m (int (draws k mod 10))"
              "\<forall>j. a + 1 \<le> j \<and> j < k \<longrightarrow> allocated m (int (draws j mod 10))"
              "snd (allocateFrame_loop draws (a + 1) m)
                  = m\<lparr>allocated := (allocated m)(int (draws k mod 10) := True)\<rparr>"
          by blast
        from k(5) True step have "\<forall>j. a \<le> j \<and> j < k \<longrightarrow> allocated m (int (draws j mod 10))"
          by metis
        with k eq
        have "a \<le> k \<and> k < 20 \<and> fst (allocateFrame_loop draws a m) = int (draws k mod 10)
          \<and> \<not> allocated m (int (draws k mod 10))
          \<and> (\<forall>j. a \<le> j \<and> j < k \<longrightarrow> allocated m (int (draws j mod 10)))
          \<and> snd (allocateFrame_loop draws a m)
              = m\<lparr>allocated := (allocated m)(int (draws k mod 10) := True)\<rparr>"
          by simp
        then show ?thesis by blast
      qed
    qed
  qed
qed

lemma allocateFrame_spec:
  "(fst (allocateFrame draws m) = -1 \<and> snd (allocateFrame draws m) = m
      \<and> (\<forall>k<20. allocated m (int (draws k mod 10))))
   \<or> (\<exists>k<20. fst (allocateFrame draws m) = int (draws k mod 10)
          \<and> \<not> allocated m (int (draws k mod 10))
          \<and> (\<forall>j<k. allocated m (int (draws j mod 10)))
          \<and> snd (allocateFrame draws m)
              = m\<lparr>allocated := (allocated m)(int (draws k mod 10) := True)\<rparr>)"
  using allocateFrame_loop_spec [of draws 0 m] by (simp add: allocateFrame_def)

lemma allocateFrame_constant:
  assumes "0 \<le> f" "f < 10"
  shows "fst (allocateFrame (\<lambda>k. nat f) m) = (if allocated m f then -1 else f)"
proof -
  from assms have f: "int (nat f mod 10) = f" by simp
  from allocateFrame_spec [of "\<lambda>k. nat f" m] f assms show ?thesis
    by (auto elim!: allE [of _ 0])
qed

text \<open>
  Claim C10. Whatever the draws of a call, \<open>allocateFrame\<close> looks at no more than the
  first 20 of them: either all 20 drawn frames are allocated, and it returns -1 and the
  memory unchanged; or it returns the first drawn frame whose allocation bit is clear,
  with that bit set and nothing else of the memory changed. So when some frame is
  allocated and another free, there is a draw sequence for which it returns -1 although
  a free frame exists, and one for which it returns the free frame. For the loader: the
  same input file is loaded under one random source and aborted with the
  \<open>runtime_error\<close> under another. (The distribution of the draws is not part of the
  model: the draws are arbitrary frames in 0..9.)
\<close>

theorem allocateFrame_draws:
  "((fst (allocateFrame draws m) = -1 \<and> snd (allocateFrame draws m) = m
       \<and> (\<forall>k<20. allocated m (int (draws k mod 10))))
    \<or> (\<exists>k<20. fst (allocateFrame draws m) = int (draws k mod 10)
          \<and> \<not> allocated m (int (draws k mod 10))
          \<and> (\<forall>j<k. allocated m (int (draws j mod 10)))
          \<and> snd (allocateFrame draws m)
              = m\<lparr>allocated := (allocated m)(int (draws k mod 10) := True)\<rparr>))
   \<and> (0 \<le> f \<and> f < 10 \<and> allocated m f \<and> 0 \<le> g \<and> g < 10 \<and> \<not> allocated m g \<longrightarrow>
        fst (allocateFrame (\<lambda>k. nat f) m) = -1 \<and> fst (allocateFrame (\<lambda>k. nat g) m) = g)
   \<and> map_sum id (\<lambda>s. map pid (readyQueue s)) (loadJobs seqRng pdBatch initialMOS) = Inr [1]
   \<and> map_sum id (\<lambda>s. map pid (readyQueue s)) (loadJobs zeroRng pdBatch initialMOS)
       = Inl (RuntimeError ''Memory allocation failed for program'')"
proof (intro conjI impI)
  show "(fst (allocateFrame draws m) = -1 \<and> snd (allocateFrame draws m) = m
       \<and> (\<forall>k<20. allocated m (int (draws k mod 10))))
    \<or> (\<exists>k<20. fst (allocateFrame draws m) = int (draws k mod 10)
          \<and> \<not> allocated m (int (draws k mod 10))
          \<and> (\<forall>j<k. allocated m (int (draws j mod 10)))
          \<and> snd (allocateFrame draws m)
              = m\<lparr>allocated := (allocated m)(int (draws k mod 10) := True)\<rparr>)"
    by (rule allocateFrame_spec)
next
  assume h: "0 \<le> f \<and> f < 10 \<and> allocated m f \<and> 0 \<le> g \<and> g < 10 \<and> \<not> allocated m g"
  then show "fst (allocateFrame (\<lambda>k. nat f) m) = -1" by (simp add: allocateFrame_constant)
  from h show "fst (allocateFrame (\<lambda>k. nat g) m) = g" by (simp add: allocateFrame_constant)
next
  show "map_sum id (\<lambda>s. map pid (readyQueue s)) (loadJobs seqRng pdBatch initialMOS) = Inr [1]"
    by code_simp
  show "map_sum id (\<lambda>s. map pid (readyQueue s)) (loadJobs zeroRng pdBatch initialMOS)
       = Inl (RuntimeError ''Memory allocation failed for program'')"
    by code_simp
qed

theorem allocateFrame_draws_witness:
  "allocated (mem sampleMOS) 0 \<and> \<not> allocated (mem sampleMOS) 2
   \<and> fst (allocateFrame (\<lambda>k. nat 0) (mem sampleMOS)) = -1
   \<and> fst (allocateFrame (\<lambda>k. nat 2) (mem sampleMOS)) = 2"
proof -
  have h: "(0::int) \<le> 0 \<and> (0::int) < 10 \<and> allocated (mem sampleMOS) 0
            \<and> (0::int) \<le> 2 \<and> (2::int) < 10 \<and> \<not> allocated (mem sampleMOS) 2"
    by (simp add: sampleMOS_def)
  with allocateFrame_draws [of "\<lambda>k. k" "mem sampleMOS" 0 2] show ?thesis
    by blast
qed

section \<open>The program image (C9)\<close>
















end
